theory Spec2Isabelle
  imports Main "HOL-Library.AList"
begin

section \<open>JavaScript values\<close>

text \<open>
  The values that flow through \<^verbatim>\<open>src/middleware/api.js\<close>. An object is the list of its own
  enumerable string-keyed properties in insertion order; a property is read with
  \<open>map_of\<close>. An array is the list of its elements, where \<open>None\<close> is a hole, an index
  below the length that holds no element, as in \<^verbatim>\<open>['A', , 'C']\<close>. Numbers are the
  integral ones (\<open>NaN\<close> and fractions do not occur in the checks of the middleware).
  \<open>JFun\<close> is a function of the store's state, the only kind of function the middleware
  calls on a value. \<open>JError m\<close> is an \<^verbatim>\<open>Error\<close> instance with
  message \<open>m\<close>. \<open>JSchema\<close> is an instance of normalizr's \<^verbatim>\<open>Schema\<close> (an entity schema with
  its key, its id attribute and the nested schemas given to \<^verbatim>\<open>define\<close>) or the result of
  \<^verbatim>\<open>arrayOf\<close>.
\<close>

datatype schema =
    EntitySchema string string "(string \<times> schema) list"
  | IterableSchema schema

datatype 's jsval =
    JUndefined
  | JNull
  | JBool bool
  | JNum int
  | JStr string
  | JArr "'s jsval option list"
  | JObj "(string \<times> 's jsval) list"
  | JFun "'s \<Rightarrow> 's jsval"
  | JError string
  | JSchema schema

fun typeof :: "'s jsval \<Rightarrow> string" where
  "typeof JUndefined = ''undefined''"
| "typeof JNull = ''object''"
| "typeof (JBool b) = ''boolean''"
| "typeof (JNum n) = ''number''"
| "typeof (JStr s) = ''string''"
| "typeof (JArr xs) = ''object''"
| "typeof (JObj kvs) = ''object''"
| "typeof (JFun f) = ''function''"
| "typeof (JError m) = ''object''"
| "typeof (JSchema sc) = ''object''"

text \<open>JavaScript's \<^verbatim>\<open>ToBoolean\<close>, as \<^verbatim>\<open>!schema\<close> and \<^verbatim>\<open>error.message || ...\<close> use it.\<close>

fun truthy :: "'s jsval \<Rightarrow> bool" where
  "truthy JUndefined = False"
| "truthy JNull = False"
| "truthy (JBool b) = b"
| "truthy (JNum n) = (n \<noteq> 0)"
| "truthy (JStr s) = (s \<noteq> [])"
| "truthy (JArr xs) = True"
| "truthy (JObj kvs) = True"
| "truthy (JFun f) = True"
| "truthy (JError m) = True"
| "truthy (JSchema sc) = True"

fun nullish :: "'s jsval \<Rightarrow> bool" where
  "nullish JUndefined = True"
| "nullish JNull = True"
| "nullish v = False"

text \<open>
  Reading one of the properties the middleware reads (\<^verbatim>\<open>endpoint\<close>, \<^verbatim>\<open>schema\<close>,
  \<^verbatim>\<open>types\<close>, \<^verbatim>\<open>data\<close>, \<^verbatim>\<open>ok\<close>, \<^verbatim>\<open>message\<close>) of a value that is not \<^verbatim>\<open>null\<close> or
  \<^verbatim>\<open>undefined\<close>: an own property of an object, the message of an error, a nested schema
  of an entity schema, and \<^verbatim>\<open>undefined\<close> on a primitive, an array or a function.
\<close>

fun prop_of :: "'s jsval \<Rightarrow> string \<Rightarrow> 's jsval" where
  "prop_of (JObj kvs) k = (case map_of kvs k of None \<Rightarrow> JUndefined | Some v \<Rightarrow> v)"
| "prop_of (JError m) k = (if k = ''message'' then JStr m else JUndefined)"
| "prop_of (JSchema (EntitySchema key idAttribute nested)) k =
     (case map_of nested k of None \<Rightarrow> JUndefined | Some sc \<Rightarrow> JSchema sc)"
| "prop_of v k = JUndefined"

text \<open>Reading along a path of property names, \<^verbatim>\<open>v.a.b\<close>, where a missing step gives \<^verbatim>\<open>undefined\<close>.\<close>

definition path :: "'s jsval \<Rightarrow> string list \<Rightarrow> 's jsval" where
  "path v keys = foldl prop_of v keys"

text \<open>
  \<^verbatim>\<open>Object.assign(target, source)\<close> on property lists: each property of the source, in
  order, is assigned to the target, where it overwrites the property of that name in
  place or is appended. Assigning to the name \<^verbatim>\<open>__proto__\<close> makes no property: it sets
  the prototype of the target, which the model does not follow.
\<close>

definition object_assign ::
  "(string \<times> 's jsval) list \<Rightarrow> (string \<times> 's jsval) list \<Rightarrow> (string \<times> 's jsval) list" where
  "object_assign target source =
     fold (\<lambda>(k, v) obj. if k = ''__proto__'' then obj else AList.update k v obj) source target"

text \<open>
  The string a value becomes when it is used as a property name: decimal digits for a
  number, the elements joined by commas for an array, with nothing for a hole. The
  source text a function would give is not modelled.
\<close>

fun show_nat :: "nat \<Rightarrow> string" where
  "show_nat n =
     (if n < 10 then [''0123456789'' ! n]
      else show_nat (n div 10) @ [''0123456789'' ! (n mod 10)])"

declare show_nat.simps [simp del]

definition show_int :: "int \<Rightarrow> string" where
  "show_int i = (if i < 0 then CHR ''-'' # show_nat (nat (- i)) else show_nat (nat i))"

fun join :: "string \<Rightarrow> string list \<Rightarrow> string" where
  "join sep [] = []"
| "join sep [x] = x"
| "join sep (x # y # xs) = x @ sep @ join sep (y # xs)"

fun to_key :: "'s jsval \<Rightarrow> string" where
  "to_key JUndefined = ''undefined''"
| "to_key JNull = ''null''"
| "to_key (JBool b) = (if b then ''true'' else ''false'')"
| "to_key (JNum n) = show_int n"
| "to_key (JStr s) = s"
| "to_key (JArr xs) =
     join '',''
       (map (\<lambda>x. case x of None \<Rightarrow> [] | Some v \<Rightarrow> if nullish v then [] else to_key v) xs)"
| "to_key (JObj kvs) = ''[object Object]''"
| "to_key (JFun f) = ''function''"
| "to_key (JError m) = (if m = [] then ''Error'' else ''Error: '' @ m)"
| "to_key (JSchema sc) = ''[object Object]''"

text \<open>The values that are objects: everything but the primitives.\<close>

fun isObject :: "'s jsval \<Rightarrow> bool" where
  "isObject JUndefined = False"
| "isObject JNull = False"
| "isObject (JBool b) = False"
| "isObject (JNum n) = False"
| "isObject (JStr s) = False"
| "isObject v = True"

fun isArray :: "'s jsval \<Rightarrow> bool" where
  "isArray (JArr xs) = True"
| "isArray v = False"

text \<open>
  The elements of an array and the characters of a string, read after the check. \<open>at\<close>
  reads an index, which gives \<^verbatim>\<open>undefined\<close> at a hole and past the end; \<open>array\<close> is an
  array without holes.
\<close>

fun elems :: "'s jsval \<Rightarrow> 's jsval option list" where
  "elems (JArr xs) = xs"
| "elems v = []"

definition at :: "'s jsval \<Rightarrow> nat \<Rightarrow> 's jsval" where
  "at v i =
     (if i < length (elems v) then (case elems v ! i of None \<Rightarrow> JUndefined | Some x \<Rightarrow> x)
      else JUndefined)"

definition array :: "'s jsval list \<Rightarrow> 's jsval" where
  "array xs = JArr (map Some xs)"

fun str_of :: "'s jsval \<Rightarrow> string" where
  "str_of (JStr s) = s"
| "str_of v = []"

section \<open>Actions, collaborators and observable behaviour\<close>

text \<open>
  An action is an object that may carry, besides its string-keyed fields, a property under
  the symbol \<^verbatim>\<open>CALL_FBOG\<close>. \<open>marker = None\<close> is an action without that property;
  \<open>marker = Some v\<close> is an action whose property holds \<open>v\<close>, which may be
  \<^verbatim>\<open>undefined\<close>.
\<close>

record 's action =
  marker :: "'s jsval option"
  props :: "(string \<times> 's jsval) list"

datatype 's settled = Fulfilled "'s jsval" | Rejected "'s jsval"

text \<open>
  What the middleware is given: the store's current state, the continuation \<^verbatim>\<open>next\<close>
  and the imported functions. \<^verbatim>\<open>next\<close> returns a value that is not a promise and does not
  throw. \<open>fBfetch\<close> gives, for an endpoint, how the promise of \<^verbatim>\<open>fbsdk.fBfetch\<close> settles:
  with the envelope or with a rejection value; the specification takes every fetch to
  run to completion or failure. \<open>normalize_fn\<close> is normalizr's \<^verbatim>\<open>normalize\<close>, which returns
  an object or throws (\<open>Inl\<close>); \<open>camelizeKeys_fn\<close> is the \<^verbatim>\<open>camelizeKeys\<close> of humps.
  \<open>engine_text\<close> is the message the JavaScript engine gives the \<^verbatim>\<open>TypeError\<close> it raises
  when a property of \<^verbatim>\<open>null\<close> or \<^verbatim>\<open>undefined\<close> is read, for the value and the property.
\<close>

record 's env =
  getState :: "'s"
  next_fn :: "'s action \<Rightarrow> 's jsval"
  fBfetch :: "string \<Rightarrow> 's settled"
  camelizeKeys_fn :: "'s jsval \<Rightarrow> 's jsval"
  normalize_fn :: "'s jsval \<Rightarrow> 's jsval \<Rightarrow> 's jsval + (string \<times> 's jsval) list"
  engine_text :: "'s jsval \<Rightarrow> string \<Rightarrow> string"

text \<open>
  Reading a property where the value may be \<^verbatim>\<open>null\<close> or \<^verbatim>\<open>undefined\<close>: the engine then
  throws a \<^verbatim>\<open>TypeError\<close> with its own message.
\<close>

definition TypeError :: "'s env \<Rightarrow> 's jsval \<Rightarrow> string \<Rightarrow> 's jsval" where
  "TypeError env v k = JError (engine_text env v k)"

definition get_prop :: "'s env \<Rightarrow> 's jsval \<Rightarrow> string \<Rightarrow> 's jsval + 's jsval" where
  "get_prop env v k = (if nullish v then Inl (TypeError env v k) else Inr (prop_of v k))"

text \<open>
  The calls the middleware makes, in the order it makes them: the endpoint function on a
  state, \<^verbatim>\<open>next\<close> on an action, \<^verbatim>\<open>fbsdk.fBfetch\<close> on an endpoint.
\<close>

datatype 's event =
    is_EndpointCall: EndpointCall 's
  | is_Next: Next "'s action"
  | is_Fetch: Fetch string

text \<open>
  The middleware throws, returns a plain value, or returns a promise that settles.
\<close>

datatype 's outcome = Threw "'s jsval" | Returned "'s jsval" | Promise "'s settled"

section \<open>The middleware\<close>

text \<open>
  Lines 10 to 19: the handler \<^verbatim>\<open>callFbog\<close> gives to \<^verbatim>\<open>then\<close>, applied to the response the
  fetch resolved to. The result is how the promise of \<^verbatim>\<open>callFbog\<close> settles.
\<close>

definition on_response :: "'s env \<Rightarrow> 's jsval \<Rightarrow> 's jsval \<Rightarrow> 's settled" where
  "on_response env schema response =
     (case get_prop env response ''data'' of
        Inl e \<Rightarrow> Rejected e
      | Inr data \<Rightarrow>
          if \<not> truthy (prop_of response ''ok'') then Rejected data
          else
            (let camelizedJson = camelizeKeys_fn env data in
             case normalize_fn env camelizedJson schema of
               Inl e \<Rightarrow> Rejected e
             | Inr normalized \<Rightarrow> Fulfilled (JObj (object_assign [] normalized))))"

text \<open>
  \<^verbatim>\<open>callFbog\<close>: it calls \<^verbatim>\<open>fbsdk.fBfetch\<close> on the endpoint; a rejection of the fetch is
  passed on. The result is how its promise settles and the call it made.
\<close>

definition callFbog :: "'s env \<Rightarrow> string \<Rightarrow> 's jsval \<Rightarrow> 's settled \<times> 's event list" where
  "callFbog env endpoint schema =
     ((case fBfetch env endpoint of
         Rejected e \<Rightarrow> Rejected e
       | Fulfilled response \<Rightarrow> on_response env schema response),
      [Fetch endpoint])"

text \<open>\<^verbatim>\<open>actionWith\<close>: copy the action, merge the data, delete the marker.\<close>

definition actionWith :: "'s action \<Rightarrow> (string \<times> 's jsval) list \<Rightarrow> 's action" where
  "actionWith action data =
     (let finalAction =
        \<lparr>marker = marker action,
         props = object_assign (object_assign [] (props action)) data\<rparr>
      in finalAction\<lparr>marker := None\<rparr>)"

text \<open>
  Lines 65 to 67: an endpoint that is a function is called on the store's state. The
  result is the endpoint to use and the call made, if any.
\<close>

definition resolve_endpoint :: "'s env \<Rightarrow> 's jsval \<Rightarrow> 's jsval \<times> 's event list" where
  "resolve_endpoint env endpoint =
     (case endpoint of
        JFun f \<Rightarrow> (f (getState env), [EndpointCall (getState env)])
      | _ \<Rightarrow> (endpoint, []))"

text \<open>
  Lines 93 to 102: the two handlers given to \<^verbatim>\<open>then\<close>, applied to how the promise of
  \<^verbatim>\<open>callFbog\<close> settled. The result is how the promise returned by \<^verbatim>\<open>then\<close> settles and
  the calls the handler made. Reading \<^verbatim>\<open>error.message\<close> throws when \<^verbatim>\<open>error\<close> is
  \<^verbatim>\<open>null\<close> or \<^verbatim>\<open>undefined\<close>, and a handler that throws rejects the promise.
\<close>

definition on_settled ::
  "'s env \<Rightarrow> 's action \<Rightarrow> 's jsval \<Rightarrow> 's jsval \<Rightarrow> 's settled \<Rightarrow> 's settled \<times> 's event list"
  where
  "on_settled env action successType failureType settled =
     (case settled of
        Fulfilled response \<Rightarrow>
          (let success = actionWith action [(''response'', response), (''type'', successType)]
           in (Fulfilled (next_fn env success), [Next success]))
      | Rejected error \<Rightarrow>
          (case get_prop env error ''message'' of
             Inl e \<Rightarrow> (Rejected e, [])
           | Inr message \<Rightarrow>
               (let failure =
                  actionWith action
                    [(''type'', failureType),
                     (''error'',
                      if truthy message then message else JStr ''Something bad happened'')]
                in (Fulfilled (next_fn env failure), [Next failure]))))"

text \<open>
  \<^verbatim>\<open>Array.prototype.every\<close>: the test holds for every element; a hole is skipped.
\<close>

definition every :: "('s jsval \<Rightarrow> bool) \<Rightarrow> 's jsval option list \<Rightarrow> bool" where
  "every test xs = list_all (\<lambda>x. case x of None \<Rightarrow> True | Some v \<Rightarrow> test v) xs"

text \<open>
  The exported middleware, \<^verbatim>\<open>store => next => action => ...\<close>: its outcome and the calls
  it made, in order. The value \<^verbatim>\<open>next\<close> returns for the request action is dropped, as in
  the source. Line 88 destructures the types, which reads a hole as \<^verbatim>\<open>undefined\<close>.
\<close>

definition middleware :: "'s env \<Rightarrow> 's action \<Rightarrow> 's outcome \<times> 's event list" where
  "middleware env action =
     (let callAPI = (case marker action of None \<Rightarrow> JUndefined | Some v \<Rightarrow> v) in
      if typeof callAPI = ''undefined'' then (Returned (next_fn env action), [Next action])
      else
        (case get_prop env callAPI ''endpoint'' of
           Inl e \<Rightarrow> (Threw e, [])
         | Inr endpoint0 \<Rightarrow>
             (let schema = prop_of callAPI ''schema'';
                  types = prop_of callAPI ''types'';
                  (endpoint, called) = resolve_endpoint env endpoint0
              in
              if typeof endpoint \<noteq> ''string'' then
                (Threw (JError ''Specify a string endpoint URL.''), called)
              else if \<not> truthy schema then
                (Threw (JError ''Specify one of the exported Schemas.''), called)
              else if \<not> isArray types \<or> length (elems types) \<noteq> 3 then
                (Threw (JError ''Expected an array of three action types.''), called)
              else if \<not> every (\<lambda>type. typeof type = ''string'') (elems types) then
                (Threw (JError ''Expected action types to be strings.''), called)
              else
                (let requestType = at types 0;
                     successType = at types 1;
                     failureType = at types 2;
                     request = actionWith action [(''type'', requestType)];
                     (fetch, fetches) = callFbog env (str_of endpoint) schema;
                     (settled, handled) = on_settled env action successType failureType fetch
                 in (Promise settled, called @ [Next request] @ fetches @ handled)))))"

section \<open>The schemas\<close>

text \<open>
  Lines 30 to 48: the two entity schemas, \<^verbatim>\<open>pageSchema.define({events: eventSchema})\<close>,
  and the exported table \<^verbatim>\<open>Schemas\<close>.
\<close>

definition eventSchema :: schema where
  "eventSchema = EntitySchema ''events'' ''id'' []"

definition pageSchema :: schema where
  "pageSchema = EntitySchema ''pages'' ''id'' [(''events'', eventSchema)]"

definition EVENT :: "'s jsval" where
  "EVENT = JSchema eventSchema"

definition EVENT_ARRAY :: "'s jsval" where
  "EVENT_ARRAY = JSchema (IterableSchema eventSchema)"

definition PAGE :: "'s jsval" where
  "PAGE = JSchema pageSchema"

definition PAGE_ARRAY :: "'s jsval" where
  "PAGE_ARRAY = JSchema (IterableSchema pageSchema)"

section \<open>The imported libraries\<close>

text \<open>
  Modelled from the spec: \<^verbatim>\<open>normalize\<close> of the normalizr package, imported on line 1
  and not among the sources. The specification describes its result as \<^verbatim>\<open>entities\<close>, a
  mapping from entity-type name to a mapping from id to the flattened entity record with
  nested entities replaced by their id, and \<^verbatim>\<open>result\<close>, the id or list of ids of the
  top-level shape. The entity-type name is the key the schema was constructed with, the id
  is the value of the schema's id attribute, and both tables are objects, so an id is a
  property name. The traversal is the library's: a value is visited with the schema found
  under its property name in the enclosing schema; a value or a schema that is not an
  object is left as it is; an entity schema files the visited record under its key and
  id and yields the id; an \<^verbatim>\<open>arrayOf\<close> schema visits every element.
\<close>

type_synonym 's obj = "(string \<times> 's jsval) list"

type_synonym 's visitor = "'s jsval \<Rightarrow> 's obj \<Rightarrow> 's jsval \<times> 's obj"

text \<open>
  Modelled from the spec: the entity table of normalizr. \<open>ensure\<close> creates the table of
  an entity type and the empty record of an id when they are missing; \<open>store\<close> merges a
  visited record into the stored one, where a field already stored with another value
  is kept.
\<close>

definition ensure :: "string \<Rightarrow> string \<Rightarrow> 's obj \<Rightarrow> 's obj" where
  "ensure entityKey eid bag =
     (let bag1 =
        (if map_of bag entityKey = None then AList.update entityKey (JObj []) bag else bag);
          table = (case map_of bag1 entityKey of Some (JObj t) \<Rightarrow> t | _ \<Rightarrow> [])
      in if map_of table eid = None
         then AList.update entityKey (JObj (AList.update eid (JObj []) table)) bag1
         else bag1)"

fun mergeIntoEntity :: "'s obj \<Rightarrow> 's obj \<Rightarrow> 's obj" where
  "mergeIntoEntity entityA [] = entityA"
| "mergeIntoEntity entityA ((key, v) # entityB) =
     mergeIntoEntity
       (if map_of entityA key = None \<or> map_of entityA key = Some v
        then AList.update key v entityA else entityA)
       entityB"

definition store :: "string \<Rightarrow> string \<Rightarrow> 's obj \<Rightarrow> 's obj \<Rightarrow> 's obj" where
  "store entityKey eid normalized bag =
     (let table = (case map_of bag entityKey of Some (JObj t) \<Rightarrow> t | _ \<Rightarrow> []);
          stored = (case map_of table eid of Some (JObj e) \<Rightarrow> e | _ \<Rightarrow> [])
      in AList.update entityKey
           (JObj (AList.update eid (JObj (mergeIntoEntity stored normalized)) table)) bag)"

text \<open>
  Modelled from the spec: the object that both libraries build by assigning the given
  properties one after another to an empty object, so that a name given twice has its
  last value.
\<close>

definition assigned :: "'s obj \<Rightarrow> 's obj" where
  "assigned kvs = fold (\<lambda>(k, v). AList.update k v) kvs []"

text \<open>
  Modelled from the spec: the visits of normalizr. The children of a value are its own
  properties, each with the visit of its value; \<open>visitObject\<close> visits each child with the
  schema of its name, \<open>visitValues\<close> and \<open>visitItems\<close> visit each child with the item
  schema of \<^verbatim>\<open>arrayOf\<close>, where the items of an array keep its holes.
\<close>

fun visitObject ::
  "(string \<times> 's visitor) list \<Rightarrow> 's jsval \<Rightarrow> 's obj \<Rightarrow> 's obj \<Rightarrow> 's obj \<times> 's obj" where
  "visitObject [] schema normalized bag = (normalized, bag)"
| "visitObject ((key, visit_value) # children) schema normalized bag =
     (let (entity, bag1) = visit_value (prop_of schema key) bag
      in visitObject children schema (AList.update key entity normalized) bag1)"

fun visitValues ::
  "(string \<times> 's visitor) list \<Rightarrow> 's jsval \<Rightarrow> 's obj \<Rightarrow> 's obj \<Rightarrow> 's obj \<times> 's obj" where
  "visitValues [] itemSchema objMap bag = (objMap, bag)"
| "visitValues ((key, visit_value) # children) itemSchema objMap bag =
     (let (entity, bag1) = visit_value itemSchema bag
      in visitValues children itemSchema (AList.update key entity objMap) bag1)"

fun visitItems ::
  "'s visitor option list \<Rightarrow> 's jsval \<Rightarrow> 's obj \<Rightarrow> 's jsval option list \<times> 's obj" where
  "visitItems [] itemSchema bag = ([], bag)"
| "visitItems (None # items) itemSchema bag =
     (let (ys, bag1) = visitItems items itemSchema bag in (None # ys, bag1))"
| "visitItems (Some visit_item # items) itemSchema bag =
     (let (y, bag1) = visit_item itemSchema bag;
          (ys, bag2) = visitItems items itemSchema bag1
      in (Some y # ys, bag2))"

definition visit_node ::
  "'s jsval \<Rightarrow> (string \<times> 's visitor) list \<Rightarrow> 's visitor option list \<Rightarrow> 's jsval \<Rightarrow> 's obj \<Rightarrow>
   's jsval \<times> 's obj" where
  "visit_node obj children items schema bag =
     (if \<not> isObject obj \<or> \<not> isObject schema then (obj, bag)
      else
        (case schema of
           JSchema (EntitySchema entityKey idAttribute nested) \<Rightarrow>
             (let eid = prop_of obj idAttribute;
                  bag1 = ensure entityKey (to_key eid) bag;
                  (normalized, bag2) = visitObject children schema [] bag1
              in (eid, store entityKey (to_key eid) normalized bag2))
         | JSchema (IterableSchema itemSchema) \<Rightarrow>
             (if isArray obj then
                (let (ys, bag1) = visitItems items (JSchema itemSchema) bag
                 in (JArr ys, bag1))
              else
                (let (objMap, bag1) = visitValues children (JSchema itemSchema) [] bag
                 in (JObj objMap, bag1)))
         | _ \<Rightarrow>
             (let (normalized, bag1) = visitObject children schema [] bag
              in (JObj normalized, bag1))))"

text \<open>
  Modelled from the spec: the elements of an array under their indices as property
  names; a hole is no property.
\<close>

fun index_from :: "nat \<Rightarrow> 'a option list \<Rightarrow> (string \<times> 'a) list" where
  "index_from i [] = []"
| "index_from i (None # xs) = index_from (Suc i) xs"
| "index_from i (Some x # xs) = (show_nat i, x) # index_from (Suc i) xs"

definition index_keys :: "'a option list \<Rightarrow> (string \<times> 'a) list" where
  "index_keys xs = index_from 0 xs"

text \<open>Modelled from the spec: the own properties a visit goes through, those of an object and the indices of an array.\<close>

definition own_props :: "'s jsval \<Rightarrow> 's obj" where
  "own_props v = (case v of JObj kvs \<Rightarrow> kvs | JArr xs \<Rightarrow> index_keys xs | _ \<Rightarrow> [])"

primrec visit :: "'s jsval \<Rightarrow> 's visitor" where
  "visit JUndefined = visit_node JUndefined [] []"
| "visit JNull = visit_node JNull [] []"
| "visit (JBool b) = visit_node (JBool b) [] []"
| "visit (JNum n) = visit_node (JNum n) [] []"
| "visit (JStr s) = visit_node (JStr s) [] []"
| "visit (JArr xs) =
     visit_node (JArr xs) (index_keys (map (map_option visit) xs)) (map (map_option visit) xs)"
| "visit (JObj kvs) = visit_node (JObj kvs) (map (map_prod (\<lambda>key. key) visit) kvs) []"
| "visit (JFun f) = visit_node (JFun f) [] []"
| "visit (JError m) = visit_node (JError m) [] []"
| "visit (JSchema sc) = visit_node (JSchema sc) [] []"

text \<open>
  Modelled from the spec: \<^verbatim>\<open>normalize(obj, schema)\<close>, which accepts an object or an
  array and a schema that is an object, and throws otherwise.
\<close>

definition normalize_js :: "'s jsval \<Rightarrow> 's jsval \<Rightarrow> 's jsval + 's obj" where
  "normalize_js obj schema =
     (if \<not> isObject obj then
        Inl (JError ''Normalize accepts an object or an array as its input.'')
      else if \<not> isObject schema \<or> isArray schema then
        Inl (JError ''Normalize accepts an object for schema.'')
      else
        (let (result, bag) = visit obj schema []
         in Inr [(''entities'', JObj bag), (''result'', result)]))"

text \<open>
  Modelled from the spec: \<^verbatim>\<open>camelizeKeys\<close> of the humps package, imported on line 2 and
  not among the sources. The specification says that the keys of the response are
  converted to camel case: in every object, at any depth, a run of underscores, hyphens
  or spaces is dropped from a key and the character after it is put in upper case, and
  the first character of the key is put in lower case. Values are not changed; an array
  is copied element by element, which reads a hole as \<^verbatim>\<open>undefined\<close>.
\<close>

definition to_upper :: "char \<Rightarrow> char" where
  "to_upper c =
     (case map_of (zip ''abcdefghijklmnopqrstuvwxyz'' ''ABCDEFGHIJKLMNOPQRSTUVWXYZ'') c of
        None \<Rightarrow> c | Some u \<Rightarrow> u)"

definition to_lower :: "char \<Rightarrow> char" where
  "to_lower c =
     (case map_of (zip ''ABCDEFGHIJKLMNOPQRSTUVWXYZ'' ''abcdefghijklmnopqrstuvwxyz'') c of
        None \<Rightarrow> c | Some l \<Rightarrow> l)"

fun camel :: "bool \<Rightarrow> string \<Rightarrow> string" where
  "camel up [] = []"
| "camel up (c # cs) =
     (if c \<in> set ''-_ '' then camel True cs
      else (if up then to_upper c else c) # camel False cs)"

definition camelize :: "string \<Rightarrow> string" where
  "camelize s = (case camel False s of [] \<Rightarrow> [] | c # cs \<Rightarrow> to_lower c # cs)"

primrec camelizeKeys :: "'s jsval \<Rightarrow> 's jsval" where
  "camelizeKeys JUndefined = JUndefined"
| "camelizeKeys JNull = JNull"
| "camelizeKeys (JBool b) = JBool b"
| "camelizeKeys (JNum n) = JNum n"
| "camelizeKeys (JStr s) = JStr s"
| "camelizeKeys (JArr xs) =
     JArr (map (\<lambda>x. Some (case x of None \<Rightarrow> JUndefined | Some v \<Rightarrow> v))
             (map (map_option camelizeKeys) xs))"
| "camelizeKeys (JObj kvs) = JObj (assigned (map (map_prod camelize camelizeKeys) kvs))"
| "camelizeKeys (JFun f) = JFun f"
| "camelizeKeys (JError m) = JError m"
| "camelizeKeys (JSchema sc) = JSchema sc"

section \<open>Call descriptors\<close>

text \<open>
  The endpoint a descriptor resolves to, and the descriptors the specification calls
  valid: the endpoint resolves to a string, a schema is given and the types are three
  strings. The descriptors that pass the checks of lines 69 to 80 are the accepted ones:
  there the types are an array of length three in which every element that is not a hole
  is a string.
\<close>

definition resolved :: "'s env \<Rightarrow> 's jsval \<Rightarrow> 's jsval" where
  "resolved env callAPI = fst (resolve_endpoint env (prop_of callAPI ''endpoint''))"

definition valid_types :: "'s jsval \<Rightarrow> bool" where
  "valid_types types \<longleftrightarrow>
     isArray types \<and> length (elems types) = 3 \<and>
     list_all (\<lambda>x. case x of None \<Rightarrow> False | Some type \<Rightarrow> typeof type = ''string'')
       (elems types)"

definition accepted_types :: "'s jsval \<Rightarrow> bool" where
  "accepted_types types \<longleftrightarrow>
     isArray types \<and> length (elems types) = 3 \<and>
     every (\<lambda>type. typeof type = ''string'') (elems types)"

definition valid_call :: "'s env \<Rightarrow> 's jsval \<Rightarrow> bool" where
  "valid_call env callAPI \<longleftrightarrow>
     \<not> nullish callAPI \<and> typeof (resolved env callAPI) = ''string'' \<and>
     truthy (prop_of callAPI ''schema'') \<and> valid_types (prop_of callAPI ''types'')"

definition accepted :: "'s env \<Rightarrow> 's jsval \<Rightarrow> bool" where
  "accepted env callAPI \<longleftrightarrow>
     \<not> nullish callAPI \<and> typeof (resolved env callAPI) = ''string'' \<and>
     truthy (prop_of callAPI ''schema'') \<and> accepted_types (prop_of callAPI ''types'')"

text \<open>
  For a descriptor: the calls of its endpoint function, the request action, the endpoint
  fetched, and what the handlers of lines 93 to 102 do once \<^verbatim>\<open>callFbog\<close> has settled.
\<close>

definition endpoint_calls :: "'s env \<Rightarrow> 's jsval \<Rightarrow> 's event list" where
  "endpoint_calls env callAPI = snd (resolve_endpoint env (prop_of callAPI ''endpoint''))"

definition request_action :: "'s action \<Rightarrow> 's jsval \<Rightarrow> 's action" where
  "request_action action callAPI = actionWith action [(''type'', at (prop_of callAPI ''types'') 0)]"

definition fetched :: "'s env \<Rightarrow> 's jsval \<Rightarrow> string" where
  "fetched env callAPI = str_of (resolved env callAPI)"

definition settlement :: "'s env \<Rightarrow> 's action \<Rightarrow> 's jsval \<Rightarrow> 's settled \<times> 's event list" where
  "settlement env action callAPI =
     on_settled env action (at (prop_of callAPI ''types'') 1) (at (prop_of callAPI ''types'') 2)
       (fst (callFbog env (fetched env callAPI) (prop_of callAPI ''schema'')))"

text \<open>The actions given to \<^verbatim>\<open>next\<close>, in order.\<close>

definition forwarded :: "'s event list \<Rightarrow> 's action list" where
  "forwarded trace = concat (map (\<lambda>e. case e of Next a \<Rightarrow> [a] | _ \<Rightarrow> []) trace)"

text \<open>The \<^verbatim>\<open>response\<close> field of the last forwarded action.\<close>

definition terminal_response :: "'s event list \<Rightarrow> 's jsval" where
  "terminal_response trace =
     (case forwarded trace of
        [] \<Rightarrow> JUndefined
      | a # as \<Rightarrow> prop_of (JObj (props (last (a # as)))) ''response'')"

section \<open>The normalized page\<close>

text \<open>
  What normalizing an object against \<^verbatim>\<open>Schemas.PAGE\<close> is expected to give: the record
  of the page, in which a nested \<^verbatim>\<open>events\<close> object is replaced by its id, and the
  table of events, which holds that object under its id.
\<close>

definition page_record :: "'s obj \<Rightarrow> 's obj" where
  "page_record kvs =
     map (\<lambda>(k, v). (k, if k = ''events'' \<and> isObject v then prop_of v ''id'' else v)) kvs"

definition event_table :: "'s obj \<Rightarrow> 's obj" where
  "event_table kvs =
     (case map_of kvs ''events'' of
        None \<Rightarrow> []
      | Some ev \<Rightarrow>
          if isObject ev then
            [(''events'',
              JObj [(to_key (prop_of ev ''id''), JObj (assigned (own_props ev)))])]
          else [])"

section \<open>A store, a call site and three responses\<close>

text \<open>
  Concrete inputs for the statements below: a store whose state is a number, a
  continuation that returns the fields of the action it was given, the two libraries, an
  engine text, and a fetch that settles as given. The action asks for the events of a page, its endpoint a
  string or a function of the state.
\<close>

definition the_env :: "nat settled \<Rightarrow> nat env" where
  "the_env settles =
     \<lparr>getState = 7,
      next_fn = (\<lambda>action. JObj (props action)),
      fBfetch = (\<lambda>endpoint. settles),
      camelizeKeys_fn = camelizeKeys,
      normalize_fn = normalize_js,
      engine_text = (\<lambda>v k. ''Cannot read property '' @ k @ '' of '' @ to_key v)\<rparr>"

definition page_call :: "nat jsval \<Rightarrow> nat jsval \<Rightarrow> nat jsval \<Rightarrow> nat jsval" where
  "page_call endpoint schema types =
     JObj [(''endpoint'', endpoint), (''schema'', schema), (''types'', types)]"

definition load_page :: "nat jsval \<Rightarrow> nat action" where
  "load_page callAPI =
     \<lparr>marker = Some callAPI, props = [(''type'', JStr ''LOAD_PAGE''), (''page'', JNum 3)]\<rparr>"

definition ping :: "nat action" where
  "ping = \<lparr>marker = None, props = [(''type'', JStr ''PING'')]\<rparr>"

definition events_of_page :: "nat \<Rightarrow> nat jsval" where
  "events_of_page n = JStr (''/'' @ show_nat n @ ''/events'')"

definition three_types :: "nat jsval" where
  "three_types = array [JStr ''PAGE_REQUEST'', JStr ''PAGE_SUCCESS'', JStr ''PAGE_FAILURE'']"

text \<open>A store whose fetch rejects with the endpoint it was given as the message.\<close>

definition echo_env :: "nat env" where
  "echo_env =
     (the_env (Rejected JNull))
       \<lparr>fBfetch := (\<lambda>endpoint. Rejected (JObj [(''message'', JStr endpoint)]))\<rparr>"

text \<open>The array \<^verbatim>\<open>['PAGE_REQUEST', , 'PAGE_FAILURE']\<close>, whose second index is a hole.\<close>

definition types_with_hole :: "nat jsval" where
  "types_with_hole = JArr [Some (JStr ''PAGE_REQUEST''), None, Some (JStr ''PAGE_FAILURE'')]"

definition envelope :: "bool \<Rightarrow> nat jsval \<Rightarrow> nat settled" where
  "envelope ok data = Fulfilled (JObj [(''ok'', JBool ok), (''data'', data)])"

text \<open>Response data: a page with one nested event, a page without id, a page with a list of events.\<close>

definition page_with_event :: "nat jsval" where
  "page_with_event =
     JObj [(''id'', JNum 12), (''name'', JStr ''Club''),
           (''events'', JObj [(''id'', JNum 34), (''start_time'', JStr ''20:00'')])]"

definition page_without_id :: "nat jsval" where
  "page_without_id = JObj [(''name'', JStr ''Club'')]"

definition page_with_events :: "nat jsval" where
  "page_with_events =
     JObj [(''id'', JStr ''p1''), (''name'', JStr ''Club''),
           (''events'', array [JObj [(''id'', JStr ''e1'')], JObj [(''id'', JStr ''e2'')]])]"

section \<open>Facts about values and objects\<close>

lemma typeof_undefined_iff: "typeof v = ''undefined'' \<longleftrightarrow> v = JUndefined"
  by (cases v) simp_all

lemma typeof_string_iff: "typeof v = ''string'' \<longleftrightarrow> (\<exists>s. v = JStr s)"
  by (cases v) simp_all

lemma map_of_fold_update:
  "map_of (fold (\<lambda>(k, v). AList.update k v) source target) = map_of target ++ map_of (rev source)"
proof (induction source arbitrary: target)
  case Nil
  show ?case by simp
next
  case (Cons kv source)
  obtain k v where kv: "kv = (k, v)" by (cases kv)
  have "map_of (fold (\<lambda>(k, v). AList.update k v) (kv # source) target) =
        map_of (AList.update k v target) ++ map_of (rev source)"
    by (simp add: kv Cons.IH)
  also have "\<dots> = map_of target ++ map_of (rev source @ [(k, v)])"
    by (simp add: update_conv' map_add_upd_left fun_eq_iff map_add_def split: option.splits)
  finally show ?case by (simp add: kv)
qed

lemma map_of_rev_distinct: "distinct (map fst xs) \<Longrightarrow> map_of (rev xs) = map_of xs"
proof (induction xs)
  case Nil
  show ?case by simp
next
  case (Cons kv xs)
  then have "map_of xs (fst kv) = None"
    by (simp add: map_of_eq_None_iff)
  with Cons show ?case
    by (auto simp: fun_eq_iff map_add_def split: option.splits)
qed

lemma object_assign_filter:
  "object_assign target source =
     fold (\<lambda>(k, v). AList.update k v) (filter (\<lambda>(k, v). k \<noteq> ''__proto__'') source) target"
  unfolding object_assign_def
  by (induction source arbitrary: target) (auto simp: case_prod_unfold)

lemma map_of_filter_key:
  "map_of (filter (\<lambda>(k, v). k \<noteq> p) xs) k = (if k = p then None else map_of xs k)"
  by (induction xs) auto

lemma map_of_object_assign:
  assumes "distinct (map fst source)"
  shows "map_of (object_assign target source) k =
           (if k = ''__proto__'' then map_of target k
            else case map_of source k of Some v \<Rightarrow> Some v | None \<Rightarrow> map_of target k)"
proof -
  have "distinct (map fst (filter (\<lambda>(k, v). k \<noteq> ''__proto__'') source))"
    using assms by (rule distinct_map_filter)
  then show ?thesis
    by (simp add: object_assign_filter map_of_fold_update map_of_rev_distinct map_add_def
          map_of_filter_key)
qed

lemma actionWith_marker: "marker (actionWith action data) = None"
  by (simp add: actionWith_def)

lemma actionWith_props:
  assumes "distinct (map fst (props action))" "distinct (map fst data)"
  shows "map_of (props (actionWith action data)) k =
         (if k = ''__proto__'' then None
          else case map_of data k of Some v \<Rightarrow> Some v | None \<Rightarrow> map_of (props action) k)"
  using assms by (simp add: actionWith_def map_of_object_assign split: option.splits)

section \<open>The paths through the middleware\<close>

lemma middleware_null:
  "marker action = Some JNull \<Longrightarrow>
   middleware env action = (Threw (TypeError env JNull ''endpoint''), [])"
  by (simp add: middleware_def get_prop_def)

lemma callFbog_fetches: "snd (callFbog env endpoint schema) = [Fetch endpoint]"
  by (simp add: callFbog_def)

lemma middleware_checked:
  assumes "marker action = Some callAPI" "\<not> nullish callAPI"
  shows "middleware env action =
    (if typeof (resolved env callAPI) \<noteq> ''string'' then
       (Threw (JError ''Specify a string endpoint URL.''), endpoint_calls env callAPI)
     else if \<not> truthy (prop_of callAPI ''schema'') then
       (Threw (JError ''Specify one of the exported Schemas.''), endpoint_calls env callAPI)
     else if \<not> accepted_types (prop_of callAPI ''types'') then
       (Threw (JError (if isArray (prop_of callAPI ''types'') \<and>
                          length (elems (prop_of callAPI ''types'')) = 3
                       then ''Expected action types to be strings.''
                       else ''Expected an array of three action types.'')),
        endpoint_calls env callAPI)
     else
       (Promise (fst (settlement env action callAPI)),
        endpoint_calls env callAPI @
        [Next (request_action action callAPI), Fetch (fetched env callAPI)] @
        snd (settlement env action callAPI)))"
  using assms
  by (cases callAPI)
     (auto simp: middleware_def get_prop_def Let_def accepted_types_def resolved_def
        endpoint_calls_def request_action_def fetched_def settlement_def callFbog_def
        split: prod.splits)

lemma middleware_accepted:
  assumes "marker action = Some callAPI" "accepted env callAPI"
  shows "middleware env action =
       (Promise (fst (settlement env action callAPI)),
        endpoint_calls env callAPI @
        [Next (request_action action callAPI), Fetch (fetched env callAPI)] @
        snd (settlement env action callAPI))"
  using assms by (simp add: middleware_checked accepted_def)

lemma valid_types_accepted: "valid_types types \<Longrightarrow> accepted_types types"
  by (auto simp: valid_types_def accepted_types_def every_def list_all_iff split: option.splits)

lemma valid_call_accepted: "valid_call env callAPI \<Longrightarrow> accepted env callAPI"
  by (simp add: valid_call_def accepted_def valid_types_accepted)

lemma middleware_valid:
  assumes "marker action = Some callAPI" "valid_call env callAPI"
  shows "middleware env action =
       (Promise (fst (settlement env action callAPI)),
        endpoint_calls env callAPI @
        [Next (request_action action callAPI), Fetch (fetched env callAPI)] @
        snd (settlement env action callAPI))"
  using assms by (simp add: middleware_accepted valid_call_accepted)

lemma middleware_refused:
  assumes "marker action = Some callAPI" "\<not> nullish callAPI" "\<not> accepted env callAPI"
  shows "\<exists>m. middleware env action = (Threw (JError m), endpoint_calls env callAPI)"
  using assms by (simp add: middleware_checked accepted_def)

lemma endpoint_calls_fun:
  "prop_of callAPI ''endpoint'' = JFun f \<Longrightarrow>
   endpoint_calls env callAPI = [EndpointCall (getState env)] \<and>
   resolved env callAPI = f (getState env)"
  by (simp add: endpoint_calls_def resolved_def resolve_endpoint_def)

lemma endpoint_calls_only_calls:
  "filter is_Next (endpoint_calls env callAPI) = []"
  "filter is_Fetch (endpoint_calls env callAPI) = []"
  by (cases "prop_of callAPI ''endpoint''"; simp add: endpoint_calls_def resolve_endpoint_def)+

lemma on_settled_cases:
  "on_settled env action successType failureType settled =
     (case settled of
        Fulfilled response \<Rightarrow>
          (Fulfilled (next_fn env
             (actionWith action [(''response'', response), (''type'', successType)])),
           [Next (actionWith action [(''response'', response), (''type'', successType)])])
      | Rejected error \<Rightarrow>
          if nullish error then (Rejected (TypeError env error ''message''), [])
          else
            (Fulfilled (next_fn env
               (actionWith action
                  [(''type'', failureType),
                   (''error'', if truthy (prop_of error ''message'') then prop_of error ''message''
                               else JStr ''Something bad happened'')])),
             [Next (actionWith action
                  [(''type'', failureType),
                   (''error'', if truthy (prop_of error ''message'') then prop_of error ''message''
                               else JStr ''Something bad happened'')])]))"
  by (simp add: on_settled_def get_prop_def Let_def split: settled.splits)

lemma settlement_only_forwards:
  "filter is_EndpointCall (snd (settlement env action callAPI)) = []"
  "filter is_Fetch (snd (settlement env action callAPI)) = []"
  by (simp_all add: settlement_def on_settled_cases split: settled.splits)

section \<open>Actions without a call descriptor\<close>

text \<open>
  C5. An action that has no call descriptor under the marker key is passed to \<^verbatim>\<open>next\<close> as
  it is, the middleware returns what \<^verbatim>\<open>next\<close> returned, and the only call made is that one:
  nothing is fetched.
\<close>

theorem no_marker_passthrough:
  "marker action = None \<Longrightarrow>
   middleware env action = (Returned (next_fn env action), [Next action])"
  by (simp add: middleware_def)

theorem no_marker_passthrough_witness:
  "marker ping = None \<and>
   middleware (the_env (Rejected JNull)) ping =
     (Returned (JObj [(''type'', JStr ''PING'')]), [Next ping])"
  using no_marker_passthrough [of ping "the_env (Rejected JNull)"]
  by (simp add: ping_def the_env_def)

text \<open>
  C9. An action whose marker property is present and holds \<^verbatim>\<open>undefined\<close> is treated as an
  action without the property: it is passed to \<^verbatim>\<open>next\<close> as it is, marker included, the
  result of \<^verbatim>\<open>next\<close> is returned, and nothing is validated, fetched or derived.
\<close>

theorem undefined_marker_passthrough:
  "marker action = Some JUndefined \<Longrightarrow>
   middleware env action = (Returned (next_fn env action), [Next action])"
  by (simp add: middleware_def)

theorem undefined_marker_passthrough_witness:
  "marker (ping\<lparr>marker := Some JUndefined\<rparr>) = Some JUndefined \<and>
   middleware (the_env (Rejected JNull)) (ping\<lparr>marker := Some JUndefined\<rparr>) =
     (Returned (JObj [(''type'', JStr ''PING'')]), [Next (ping\<lparr>marker := Some JUndefined\<rparr>)])"
  using undefined_marker_passthrough
          [of "ping\<lparr>marker := Some JUndefined\<rparr>" "the_env (Rejected JNull)"]
  by (simp add: ping_def the_env_def)

section \<open>Validation of the call descriptor\<close>

text \<open>
  C6. When the endpoint of the descriptor is a function, the middleware calls it exactly
  once, on the store's current state, and every fetch it starts goes to the string the
  function returned. When the descriptor is accepted, \<^verbatim>\<open>fbsdk.fBfetch\<close> is called on that
  string and on nothing else: the promise and the last forwarded action are what the
  handlers make of the way that fetch settles. When the endpoint, after that call if it is
  a function, is not a string, the middleware throws the error
  \<^verbatim>\<open>Specify a string endpoint URL.\<close> itself, having forwarded and fetched nothing.
\<close>

theorem function_endpoint_called_once:
  assumes "marker action = Some callAPI" and "\<not> nullish callAPI"
  shows "(\<forall>f. prop_of callAPI ''endpoint'' = JFun f \<longrightarrow>
            filter is_EndpointCall (snd (middleware env action)) = [EndpointCall (getState env)] \<and>
            (\<forall>url. Fetch url \<in> set (snd (middleware env action)) \<longrightarrow>
                   f (getState env) = JStr url) \<and>
            (accepted env callAPI \<longrightarrow>
               (let url = str_of (f (getState env));
                    fetch =
                      (case fBfetch env url of
                         Rejected e \<Rightarrow> Rejected e
                       | Fulfilled response \<Rightarrow>
                           on_response env (prop_of callAPI ''schema'') response);
                    handled =
                      on_settled env action
                        (at (prop_of callAPI ''types'') 1) (at (prop_of callAPI ''types'') 2) fetch
                in middleware env action =
                     (Promise (fst handled),
                      [EndpointCall (getState env),
                       Next (actionWith action [(''type'', at (prop_of callAPI ''types'') 0)]),
                       Fetch url] @ snd handled)))) \<and>
         (typeof (resolved env callAPI) \<noteq> ''string'' \<longrightarrow>
            fst (middleware env action) = Threw (JError ''Specify a string endpoint URL.'') \<and>
            filter is_Next (snd (middleware env action)) = [] \<and>
            filter is_Fetch (snd (middleware env action)) = [])"
proof (intro conjI allI impI)
  fix f
  assume f: "prop_of callAPI ''endpoint'' = JFun f"
  note calls = endpoint_calls_fun [OF f, of env]
  show "filter is_EndpointCall (snd (middleware env action)) = [EndpointCall (getState env)]"
  proof (cases "accepted env callAPI")
    case True
    show ?thesis
      by (simp add: middleware_accepted [OF assms(1) True] calls settlement_only_forwards)
  next
    case False
    from middleware_refused [OF assms False] show ?thesis
      by (auto simp: calls)
  qed
  show "let url = str_of (f (getState env));
            fetch =
              (case fBfetch env url of
                 Rejected e \<Rightarrow> Rejected e
               | Fulfilled response \<Rightarrow> on_response env (prop_of callAPI ''schema'') response);
            handled =
              on_settled env action
                (at (prop_of callAPI ''types'') 1) (at (prop_of callAPI ''types'') 2) fetch
        in middleware env action =
             (Promise (fst handled),
              [EndpointCall (getState env),
               Next (actionWith action [(''type'', at (prop_of callAPI ''types'') 0)]),
               Fetch url] @ snd handled)"
    if v: "accepted env callAPI"
    by (simp add: middleware_accepted [OF assms(1) v] calls settlement_def fetched_def
          callFbog_def request_action_def Let_def)
  show "f (getState env) = JStr url" if u: "Fetch url \<in> set (snd (middleware env action))" for url
  proof (cases "accepted env callAPI")
    case True
    then have "typeof (f (getState env)) = ''string''"
      by (simp add: accepted_def calls)
    then obtain s where s: "f (getState env) = JStr s"
      by (auto simp: typeof_string_iff)
    have "Fetch url \<in> set (filter is_Fetch (snd (middleware env action)))"
      using u by simp
    also have "filter is_Fetch (snd (middleware env action)) = [Fetch s]"
      by (simp add: middleware_accepted [OF assms(1) True] calls settlement_only_forwards
            fetched_def s)
    finally show ?thesis by (simp add: s)
  next
    case False
    from middleware_refused [OF assms False] u show ?thesis
      by (auto simp: calls)
  qed
next
  assume n: "typeof (resolved env callAPI) \<noteq> ''string''"
  then have m: "middleware env action =
      (Threw (JError ''Specify a string endpoint URL.''), endpoint_calls env callAPI)"
    by (simp add: middleware_checked [OF assms])
  show "fst (middleware env action) = Threw (JError ''Specify a string endpoint URL.'')"
    by (simp add: m)
  show "filter is_Next (snd (middleware env action)) = []"
    by (simp add: m endpoint_calls_only_calls)
  show "filter is_Fetch (snd (middleware env action)) = []"
    by (simp add: m endpoint_calls_only_calls)
qed

lemma events_of_page_state: "events_of_page 7 = JStr ''/7/events''"
  by (simp add: events_of_page_def show_nat.simps)

theorem function_endpoint_called_once_witness:
  "marker (load_page (page_call (JFun events_of_page) PAGE three_types)) =
     Some (page_call (JFun events_of_page) PAGE three_types) \<and>
   \<not> nullish (page_call (JFun events_of_page) PAGE three_types) \<and>
   prop_of (page_call (JFun events_of_page) PAGE three_types) ''endpoint'' = JFun events_of_page \<and>
   accepted echo_env (page_call (JFun events_of_page) PAGE three_types) \<and>
   getState echo_env = 7 \<and>
   fBfetch echo_env ''/7/events'' = Rejected (JObj [(''message'', JStr ''/7/events'')]) \<and>
   middleware echo_env (load_page (page_call (JFun events_of_page) PAGE three_types)) =
     (Promise (Fulfilled (JObj [(''type'', JStr ''PAGE_FAILURE''), (''page'', JNum 3),
                                (''error'', JStr ''/7/events'')])),
      [EndpointCall 7,
       Next \<lparr>marker = None, props = [(''type'', JStr ''PAGE_REQUEST''), (''page'', JNum 3)]\<rparr>,
       Fetch ''/7/events'',
       Next \<lparr>marker = None,
             props = [(''type'', JStr ''PAGE_FAILURE''), (''page'', JNum 3),
                      (''error'', JStr ''/7/events'')]\<rparr>]) \<and>
   typeof (resolved echo_env (page_call (JFun (\<lambda>n. JNum (int n))) PAGE three_types)) \<noteq>
     ''string'' \<and>
   fst (middleware echo_env
     (load_page (page_call (JFun (\<lambda>n. JNum (int n))) PAGE three_types))) =
     Threw (JError ''Specify a string endpoint URL.'')"
proof -
  let ?good = "page_call (JFun events_of_page) PAGE three_types"
  let ?bad = "page_call (JFun (\<lambda>n. JNum (int n))) PAGE three_types"
  have m: "marker (load_page ?good) = Some ?good" "marker (load_page ?bad) = Some ?bad"
    by (simp_all add: load_page_def)
  have n: "\<not> nullish ?good" "\<not> nullish ?bad"
    by (simp_all add: page_call_def)
  have f: "prop_of ?good ''endpoint'' = JFun events_of_page"
    by (simp add: page_call_def)
  have g: "getState echo_env = 7"
    by (simp add: echo_env_def the_env_def)
  have r: "fBfetch echo_env ''/7/events'' = Rejected (JObj [(''message'', JStr ''/7/events'')])"
    by (simp add: echo_env_def)
  have t: "prop_of ?good ''types'' = three_types"
    by (simp add: page_call_def)
  have a: "at three_types 0 = JStr ''PAGE_REQUEST''" "at three_types 1 = JStr ''PAGE_SUCCESS''"
      "at three_types 2 = JStr ''PAGE_FAILURE''"
    by (simp_all add: at_def three_types_def array_def)
  have v: "accepted echo_env ?good"
    by (simp add: accepted_def accepted_types_def every_def resolved_def resolve_endpoint_def
          page_call_def three_types_def array_def PAGE_def g events_of_page_state)
  have b: "typeof (resolved echo_env ?bad) \<noteq> ''string''"
    by (simp add: resolved_def resolve_endpoint_def page_call_def)
  have h: "on_settled echo_env (load_page ?good) (JStr ''PAGE_SUCCESS'') (JStr ''PAGE_FAILURE'')
             (Rejected (JObj [(''message'', JStr ''/7/events'')])) =
           (Fulfilled (JObj [(''type'', JStr ''PAGE_FAILURE''), (''page'', JNum 3),
                             (''error'', JStr ''/7/events'')]),
            [Next \<lparr>marker = None,
                   props = [(''type'', JStr ''PAGE_FAILURE''), (''page'', JNum 3),
                            (''error'', JStr ''/7/events'')]\<rparr>])"
    by (simp add: on_settled_cases actionWith_def object_assign_def load_page_def
          echo_env_def the_env_def)
  have q: "actionWith (load_page ?good) [(''type'', JStr ''PAGE_REQUEST'')] =
           \<lparr>marker = None, props = [(''type'', JStr ''PAGE_REQUEST''), (''page'', JNum 3)]\<rparr>"
    by (simp add: actionWith_def object_assign_def load_page_def)
  from function_endpoint_called_once [OF m(1) n(1), of echo_env] f v
  have "let url = str_of (events_of_page (getState echo_env));
            fetch =
              (case fBfetch echo_env url of
                 Rejected e \<Rightarrow> Rejected e
               | Fulfilled response \<Rightarrow> on_response echo_env (prop_of ?good ''schema'') response);
            handled =
              on_settled echo_env (load_page ?good)
                (at (prop_of ?good ''types'') 1) (at (prop_of ?good ''types'') 2) fetch
        in middleware echo_env (load_page ?good) =
             (Promise (fst handled),
              [EndpointCall (getState echo_env),
               Next (actionWith (load_page ?good) [(''type'', at (prop_of ?good ''types'') 0)]),
               Fetch url] @ snd handled)"
    by blast
  then have "middleware echo_env (load_page ?good) =
     (Promise (Fulfilled (JObj [(''type'', JStr ''PAGE_FAILURE''), (''page'', JNum 3),
                                (''error'', JStr ''/7/events'')])),
      [EndpointCall 7,
       Next \<lparr>marker = None, props = [(''type'', JStr ''PAGE_REQUEST''), (''page'', JNum 3)]\<rparr>,
       Fetch ''/7/events'',
       Next \<lparr>marker = None,
             props = [(''type'', JStr ''PAGE_FAILURE''), (''page'', JNum 3),
                      (''error'', JStr ''/7/events'')]\<rparr>])"
    unfolding Let_def g events_of_page_state str_of.simps r settled.case t a h q
    by simp
  moreover from function_endpoint_called_once [OF m(2) n(2), of echo_env] b
  have "fst (middleware echo_env (load_page ?bad)) =
          Threw (JError ''Specify a string endpoint URL.'')"
    by simp
  ultimately show ?thesis
    using m n f v g r b by simp
qed

text \<open>
  When the types of the descriptor do not pass the checks of lines 75 to 80, the
  middleware throws an error itself: no promise is returned, no action has been forwarded
  and nothing fetched. With a string endpoint and a schema it is the error on the types:
  \<^verbatim>\<open>Expected action types to be strings.\<close> for an array of length three,
  \<^verbatim>\<open>Expected an array of three action types.\<close> otherwise.
\<close>

lemma unaccepted_types_throw:
  assumes "marker action = Some callAPI" and "\<not> nullish callAPI"
    and "\<not> accepted_types (prop_of callAPI ''types'')"
  shows "(\<exists>m. fst (middleware env action) = Threw (JError m)) \<and>
         filter is_Next (snd (middleware env action)) = [] \<and>
         filter is_Fetch (snd (middleware env action)) = [] \<and>
         (typeof (resolved env callAPI) = ''string'' \<and> truthy (prop_of callAPI ''schema'') \<longrightarrow>
            fst (middleware env action) =
              Threw (JError (if isArray (prop_of callAPI ''types'') \<and>
                                length (elems (prop_of callAPI ''types'')) = 3
                             then ''Expected action types to be strings.''
                             else ''Expected an array of three action types.'')))"
proof -
  have "\<not> accepted env callAPI"
    using assms(3) by (simp add: accepted_def)
  from middleware_refused [OF assms(1,2) this]
  obtain m where m: "middleware env action = (Threw (JError m), endpoint_calls env callAPI)"
    by blast
  have "fst (middleware env action) =
          Threw (JError (if isArray (prop_of callAPI ''types'') \<and>
                            length (elems (prop_of callAPI ''types'')) = 3
                         then ''Expected action types to be strings.''
                         else ''Expected an array of three action types.''))"
    if "typeof (resolved env callAPI) = ''string''" "truthy (prop_of callAPI ''schema'')"
    using that assms(3) by (simp add: middleware_checked [OF assms(1,2)])
  then show ?thesis
    by (simp add: m endpoint_calls_only_calls)
qed

text \<open>
  The two examples of the specification that the code meets: types of length two and
  types that hold a number are refused before anything is forwarded.
\<close>

lemma malformed_types_examples:
  "middleware (the_env (Rejected JNull))
     (load_page (page_call (JStr ''/me'') PAGE (array [JStr ''A'', JStr ''B'']))) =
     (Threw (JError ''Expected an array of three action types.''), [])"
  "middleware (the_env (Rejected JNull))
     (load_page (page_call (JStr ''/me'') PAGE (array [JStr ''A'', JNum 2, JStr ''C'']))) =
     (Threw (JError ''Expected action types to be strings.''), [])"
proof -
  let ?env = "the_env (Rejected JNull)"
  let ?two = "page_call (JStr ''/me'') PAGE (array [JStr ''A'', JStr ''B''])"
  let ?num = "page_call (JStr ''/me'') PAGE (array [JStr ''A'', JNum 2, JStr ''C''])"
  have m: "marker (load_page ?two) = Some ?two" "marker (load_page ?num) = Some ?num"
    by (simp_all add: load_page_def)
  have n: "\<not> nullish ?two" "\<not> nullish ?num"
    by (simp_all add: page_call_def)
  have e: "typeof (resolved ?env ?two) = ''string''" "typeof (resolved ?env ?num) = ''string''"
      "truthy (prop_of ?two ''schema'')" "truthy (prop_of ?num ''schema'')"
      "endpoint_calls ?env ?two = []" "endpoint_calls ?env ?num = []"
      "\<not> accepted_types (prop_of ?two ''types'')" "\<not> accepted_types (prop_of ?num ''types'')"
      "isArray (prop_of ?num ''types'')" "length (elems (prop_of ?num ''types'')) = 3"
      "length (elems (prop_of ?two ''types'')) = 2"
    by (simp_all add: page_call_def resolved_def resolve_endpoint_def endpoint_calls_def PAGE_def
          accepted_types_def every_def array_def)
  show "middleware ?env (load_page ?two) =
          (Threw (JError ''Expected an array of three action types.''), [])"
    by (simp add: middleware_checked [OF m(1) n(1)] e)
  show "middleware ?env (load_page ?num) =
          (Threw (JError ''Expected action types to be strings.''), [])"
    by (simp add: middleware_checked [OF m(2) n(2)] e)
qed

text \<open>
  C7. The claim fails for types with a hole: \<^verbatim>\<open>['PAGE_REQUEST', , 'PAGE_FAILURE']\<close> is
  not a sequence of three strings, but it has length three and \<^verbatim>\<open>every\<close> skips the hole,
  so the checks of lines 75 to 80 pass: nothing is thrown, the request action is forwarded,
  the fetch is started and a promise is returned.
\<close>

theorem types_with_hole_forwarded:
  "\<not> valid_types types_with_hole \<and>
   middleware (the_env (Rejected (JObj [])))
     (load_page (page_call (JStr ''/me'') PAGE types_with_hole)) =
     (Promise (Fulfilled (JObj [(''type'', JStr ''PAGE_FAILURE''), (''page'', JNum 3),
                                (''error'', JStr ''Something bad happened'')])),
      [Next \<lparr>marker = None, props = [(''type'', JStr ''PAGE_REQUEST''), (''page'', JNum 3)]\<rparr>,
       Fetch ''/me'',
       Next \<lparr>marker = None,
             props = [(''type'', JStr ''PAGE_FAILURE''), (''page'', JNum 3),
                      (''error'', JStr ''Something bad happened'')]\<rparr>])"
proof -
  let ?env = "the_env (Rejected (JObj []))"
  let ?call = "page_call (JStr ''/me'') PAGE types_with_hole"
  have m: "marker (load_page ?call) = Some ?call"
    by (simp add: load_page_def)
  have v: "accepted ?env ?call"
    by (simp add: accepted_def accepted_types_def every_def resolved_def resolve_endpoint_def
          page_call_def types_with_hole_def PAGE_def)
  have a: "at types_with_hole 0 = JStr ''PAGE_REQUEST''" "at types_with_hole 1 = JUndefined"
      "at types_with_hole 2 = JStr ''PAGE_FAILURE''"
    by (simp_all add: at_def types_with_hole_def)
  have "middleware ?env (load_page ?call) =
     (Promise (Fulfilled (JObj [(''type'', JStr ''PAGE_FAILURE''), (''page'', JNum 3),
                                (''error'', JStr ''Something bad happened'')])),
      [Next \<lparr>marker = None, props = [(''type'', JStr ''PAGE_REQUEST''), (''page'', JNum 3)]\<rparr>,
       Fetch ''/me'',
       Next \<lparr>marker = None,
             props = [(''type'', JStr ''PAGE_FAILURE''), (''page'', JNum 3),
                      (''error'', JStr ''Something bad happened'')]\<rparr>])"
    unfolding middleware_accepted [OF m v]
    by (simp add: settlement_def fetched_def resolved_def endpoint_calls_def
          resolve_endpoint_def request_action_def callFbog_def on_settled_cases
          actionWith_def object_assign_def page_call_def load_page_def the_env_def a)
  moreover have "\<not> valid_types types_with_hole"
    by (simp add: valid_types_def types_with_hole_def)
  ultimately show ?thesis
    by simp
qed

theorem types_with_hole_forwarded_witness:
  "\<forall>e. fst (middleware (the_env (Rejected (JObj [])))
            (load_page (page_call (JStr ''/me'') PAGE types_with_hole))) \<noteq> Threw e"
proof -
  from types_with_hole_forwarded
  have "\<exists>p. fst (middleware (the_env (Rejected (JObj [])))
            (load_page (page_call (JStr ''/me'') PAGE types_with_hole))) = Promise p"
    by (metis fst_conv)
  then show ?thesis
    by auto
qed

text \<open>
  C10. The descriptor is checked in the order endpoint, schema, types, and the first
  failing check decides the error: an endpoint that does not resolve to a string gives
  the endpoint error whatever the schema and the types are, and with a string endpoint a
  missing schema gives the schema error whatever the types are.
\<close>

theorem validation_order:
  assumes "marker action = Some callAPI" and "\<not> nullish callAPI"
  shows "(typeof (resolved env callAPI) \<noteq> ''string'' \<longrightarrow>
            fst (middleware env action) = Threw (JError ''Specify a string endpoint URL.'')) \<and>
         (typeof (resolved env callAPI) = ''string'' \<and> \<not> truthy (prop_of callAPI ''schema'') \<longrightarrow>
            fst (middleware env action) =
              Threw (JError ''Specify one of the exported Schemas.''))"
  by (simp add: middleware_checked [OF assms])

theorem validation_order_witness:
  "marker (load_page (page_call (JNum 5) JUndefined (JArr []))) =
     Some (page_call (JNum 5) JUndefined (JArr [])) \<and>
   \<not> nullish (page_call (JNum 5) JUndefined (JArr [])) \<and>
   typeof (resolved (the_env (Rejected JNull)) (page_call (JNum 5) JUndefined (JArr []))) \<noteq>
     ''string'' \<and>
   \<not> truthy (prop_of (page_call (JNum 5) JUndefined (JArr [])) ''schema'') \<and>
   \<not> valid_types (prop_of (page_call (JNum 5) JUndefined (JArr [])) ''types'') \<and>
   fst (middleware (the_env (Rejected JNull))
     (load_page (page_call (JNum 5) JUndefined (JArr [])))) =
     Threw (JError ''Specify a string endpoint URL.'') \<and>
   typeof (resolved (the_env (Rejected JNull)) (page_call (JStr ''/me'') JNull (JStr ''x''))) =
     ''string'' \<and>
   \<not> truthy (prop_of (page_call (JStr ''/me'') JNull (JStr ''x'')) ''schema'') \<and>
   \<not> valid_types (prop_of (page_call (JStr ''/me'') JNull (JStr ''x'')) ''types'') \<and>
   fst (middleware (the_env (Rejected JNull))
     (load_page (page_call (JStr ''/me'') JNull (JStr ''x'')))) =
     Threw (JError ''Specify one of the exported Schemas.'')"
proof -
  let ?env = "the_env (Rejected JNull)"
  let ?all = "page_call (JNum 5) JUndefined (JArr [])"
  let ?two = "page_call (JStr ''/me'') JNull (JStr ''x'')"
  have m: "marker (load_page ?all) = Some ?all" "marker (load_page ?two) = Some ?two"
    by (simp_all add: load_page_def)
  have n: "\<not> nullish ?all" "\<not> nullish ?two"
    by (simp_all add: page_call_def)
  have d: "typeof (resolved ?env ?all) \<noteq> ''string''" "typeof (resolved ?env ?two) = ''string''"
      "\<not> truthy (prop_of ?all ''schema'')" "\<not> truthy (prop_of ?two ''schema'')"
      "\<not> valid_types (prop_of ?all ''types'')" "\<not> valid_types (prop_of ?two ''types'')"
    by (simp_all add: page_call_def resolved_def resolve_endpoint_def valid_types_def)
  from validation_order [OF m(1) n(1), of ?env] validation_order [OF m(2) n(2), of ?env]
  show ?thesis
    using m n d by simp
qed

section \<open>The forwarded actions\<close>

lemma example_call_valid:
  "valid_call (the_env settles) (page_call (JStr ''/me'') PAGE three_types)"
  by (simp add: valid_call_def valid_types_def resolved_def resolve_endpoint_def page_call_def
        three_types_def array_def PAGE_def)

lemma at_three_types:
  "at three_types 0 = JStr ''PAGE_REQUEST''" "at three_types 1 = JStr ''PAGE_SUCCESS''"
  "at three_types (Suc 0) = JStr ''PAGE_SUCCESS''" "at three_types 2 = JStr ''PAGE_FAILURE''"
  by (simp_all add: at_def three_types_def array_def)

lemma example_call_run:
  "middleware (the_env settles) (load_page (page_call (JStr ''/me'') PAGE three_types)) =
     (Promise (fst (on_settled (the_env settles)
                 (load_page (page_call (JStr ''/me'') PAGE three_types))
                 (JStr ''PAGE_SUCCESS'') (JStr ''PAGE_FAILURE'')
                 (fst (callFbog (the_env settles) ''/me'' PAGE)))),
      [Next \<lparr>marker = None, props = [(''type'', JStr ''PAGE_REQUEST''), (''page'', JNum 3)]\<rparr>,
       Fetch ''/me''] @
      snd (on_settled (the_env settles)
             (load_page (page_call (JStr ''/me'') PAGE three_types))
             (JStr ''PAGE_SUCCESS'') (JStr ''PAGE_FAILURE'')
             (fst (callFbog (the_env settles) ''/me'' PAGE))))"
proof -
  have m: "marker (load_page (page_call (JStr ''/me'') PAGE three_types)) =
             Some (page_call (JStr ''/me'') PAGE three_types)"
    by (simp add: load_page_def)
  have t: "prop_of (page_call (JStr ''/me'') PAGE three_types) ''types'' = three_types"
      "prop_of (page_call (JStr ''/me'') PAGE three_types) ''schema'' = PAGE"
      "prop_of (page_call (JStr ''/me'') PAGE three_types) ''endpoint'' = JStr ''/me''"
    by (simp_all add: page_call_def)
  show ?thesis
    unfolding middleware_valid [OF m example_call_valid]
    by (simp add: settlement_def fetched_def resolved_def endpoint_calls_def
          resolve_endpoint_def request_action_def actionWith_def object_assign_def
          t at_three_types load_page_def)
qed

lemma example_call_fails:
  "\<not> nullish error \<Longrightarrow>
   on_settled (the_env settles) (load_page callAPI) (JStr ''PAGE_SUCCESS'') (JStr ''PAGE_FAILURE'')
     (Rejected error) =
   (Fulfilled (JObj [(''type'', JStr ''PAGE_FAILURE''), (''page'', JNum 3),
                     (''error'', if truthy (prop_of error ''message'') then prop_of error ''message''
                                 else JStr ''Something bad happened'')]),
    [Next \<lparr>marker = None,
           props = [(''type'', JStr ''PAGE_FAILURE''), (''page'', JNum 3),
                    (''error'', if truthy (prop_of error ''message'') then prop_of error ''message''
                                 else JStr ''Something bad happened'')]\<rparr>])"
  by (simp add: on_settled_cases actionWith_def object_assign_def load_page_def the_env_def)

lemma example_envelope_not_ok:
  "fst (callFbog (the_env (envelope False data)) endpoint schema) = Rejected data"
  by (simp add: callFbog_def on_response_def the_env_def envelope_def get_prop_def)

lemma example_fetch_rejected:
  "fst (callFbog (the_env (Rejected reason)) endpoint schema) = Rejected reason"
  by (simp add: callFbog_def the_env_def)

text \<open>How \<^verbatim>\<open>callFbog\<close> comes to resolve and to reject, in terms of the fetch and the libraries.\<close>

lemma callFbog_Fulfilled:
  assumes "fst (callFbog env url schema) = Fulfilled response"
  shows "\<exists>reply normalized.
           fBfetch env url = Fulfilled reply \<and> truthy (prop_of reply ''ok'') \<and>
           normalize_fn env (camelizeKeys_fn env (prop_of reply ''data'')) schema =
             Inr normalized \<and>
           response = JObj (object_assign [] normalized)"
  using assms
  by (auto simp: callFbog_def on_response_def get_prop_def Let_def
        split: settled.splits sum.splits if_splits)

lemma callFbog_Rejected:
  assumes "fst (callFbog env url schema) = Rejected error"
  shows "fBfetch env url = Rejected error \<or>
         (\<exists>reply. fBfetch env url = Fulfilled reply \<and>
            (nullish reply \<and> error = TypeError env reply ''data'' \<or>
             \<not> nullish reply \<and> \<not> truthy (prop_of reply ''ok'') \<and>
               error = prop_of reply ''data'' \<or>
             truthy (prop_of reply ''ok'') \<and>
               normalize_fn env (camelizeKeys_fn env (prop_of reply ''data'')) schema =
                 Inl error))"
  using assms
  by (auto simp: callFbog_def on_response_def get_prop_def Let_def
        split: settled.splits sum.splits if_splits)

text \<open>
  C8, as stated, fails. The envelope \<^verbatim>\<open>{ok: false, data: {message: 42}}\<close> gives a failure
  action whose \<^verbatim>\<open>error\<close> is the number 42, not a string. An action with an own field
  named \<^verbatim>\<open>__proto__\<close> is forwarded without that field: \<^verbatim>\<open>Object.assign\<close> assigns it,
  which sets the prototype of the copy.
\<close>

theorem forwarded_fields_counterexample:
  "map (\<lambda>a. map_of (props a) ''error'')
     (forwarded (snd (middleware (the_env (envelope False (JObj [(''message'', JNum 42)])))
        (load_page (page_call (JStr ''/me'') PAGE three_types))))) =
     [None, Some (JNum 42)] \<and>
   typeof (JNum 42 :: nat jsval) \<noteq> ''string'' \<and>
   map_of (props ((load_page (page_call (JStr ''/me'') PAGE three_types))
                    \<lparr>props := [(''type'', JStr ''LOAD_PAGE''), (''__proto__'', JObj [])]\<rparr>))
     ''__proto__'' = Some (JObj []) \<and>
   forwarded (snd (middleware (the_env (Rejected (JObj [])))
     ((load_page (page_call (JStr ''/me'') PAGE three_types))
        \<lparr>props := [(''type'', JStr ''LOAD_PAGE''), (''__proto__'', JObj [])]\<rparr>))) =
     [\<lparr>marker = None, props = [(''type'', JStr ''PAGE_REQUEST'')]\<rparr>,
      \<lparr>marker = None,
        props = [(''type'', JStr ''PAGE_FAILURE''),
                 (''error'', JStr ''Something bad happened'')]\<rparr>]"
proof -
  let ?call = "page_call (JStr ''/me'') PAGE three_types"
  let ?env = "the_env (Rejected (JObj []))"
  let ?action = "(load_page ?call)
                   \<lparr>props := [(''type'', JStr ''LOAD_PAGE''), (''__proto__'', JObj [])]\<rparr>"
  have m: "marker ?action = Some ?call"
    by (simp add: load_page_def)
  have t: "prop_of ?call ''types'' = three_types" "prop_of ?call ''schema'' = PAGE"
      "prop_of ?call ''endpoint'' = JStr ''/me''"
    by (simp_all add: page_call_def)
  have "forwarded (snd (middleware ?env ?action)) =
     [\<lparr>marker = None, props = [(''type'', JStr ''PAGE_REQUEST'')]\<rparr>,
      \<lparr>marker = None,
        props = [(''type'', JStr ''PAGE_FAILURE''),
                 (''error'', JStr ''Something bad happened'')]\<rparr>]"
    unfolding middleware_valid [OF m example_call_valid]
    by (simp add: settlement_def fetched_def resolved_def endpoint_calls_def
          resolve_endpoint_def request_action_def example_fetch_rejected on_settled_cases
          actionWith_def object_assign_def t at_three_types load_page_def forwarded_def)
  moreover have "map (\<lambda>a. map_of (props a) ''error'')
     (forwarded (snd (middleware (the_env (envelope False (JObj [(''message'', JNum 42)])))
        (load_page ?call)))) = [None, Some (JNum 42)]"
    by (simp add: example_call_run example_envelope_not_ok example_call_fails forwarded_def)
  ultimately show ?thesis
    by (simp add: load_page_def)
qed

text \<open>
  C8, amended. Every action forwarded for an intercepted call is \<^verbatim>\<open>actionWith\<close> of one of
  three data objects: the request type alone; the success type and the response, which
  is the copy of what \<^verbatim>\<open>normalize\<close> returned for the camel-cased data of an envelope
  whose \<^verbatim>\<open>ok\<close> is true; the failure type and the error, which is the message of the
  rejection value when that is truthy and the placeholder text otherwise, where the
  rejection value is that of the fetch, the data of an envelope whose \<^verbatim>\<open>ok\<close> is false, or
  what was thrown while the response was read and normalized. The forwarded action has
  no marker and no field \<^verbatim>\<open>__proto__\<close>; it holds the fields of the data, and every other
  field of the original action but \<^verbatim>\<open>__proto__\<close> with its value.
\<close>

theorem forwarded_action_fields:
  assumes "marker action = Some callAPI" and "callAPI \<noteq> JUndefined"
    and "distinct (map fst (props action))"
    and "Next a \<in> set (snd (middleware env action))"
  shows "\<exists>data.
      (data = [(''type'', at (prop_of callAPI ''types'') 0)] \<or>
       (\<exists>reply normalized.
          fBfetch env (fetched env callAPI) = Fulfilled reply \<and>
          truthy (prop_of reply ''ok'') \<and>
          normalize_fn env (camelizeKeys_fn env (prop_of reply ''data''))
            (prop_of callAPI ''schema'') = Inr normalized \<and>
          data = [(''response'', JObj (object_assign [] normalized)),
                  (''type'', at (prop_of callAPI ''types'') 1)]) \<or>
       (\<exists>error.
          \<not> nullish error \<and>
          (fBfetch env (fetched env callAPI) = Rejected error \<or>
           (\<exists>reply. fBfetch env (fetched env callAPI) = Fulfilled reply \<and>
              (nullish reply \<and> error = TypeError env reply ''data'' \<or>
               \<not> nullish reply \<and> \<not> truthy (prop_of reply ''ok'') \<and>
                 error = prop_of reply ''data'' \<or>
               truthy (prop_of reply ''ok'') \<and>
                 normalize_fn env (camelizeKeys_fn env (prop_of reply ''data''))
                   (prop_of callAPI ''schema'') = Inl error))) \<and>
          data = [(''type'', at (prop_of callAPI ''types'') 2),
                  (''error'', if truthy (prop_of error ''message'') then prop_of error ''message''
                              else JStr ''Something bad happened'')])) \<and>
      a = actionWith action data \<and> marker a = None \<and>
      map_of (props a) ''__proto__'' = None \<and>
      (\<forall>k. k \<noteq> ''__proto__'' \<longrightarrow>
           map_of (props a) k =
             (case map_of data k of Some v \<Rightarrow> Some v | None \<Rightarrow> map_of (props action) k))"
proof -
  let ?types = "prop_of callAPI ''types''"
  let ?call = "fst (callFbog env (fetched env callAPI) (prop_of callAPI ''schema''))"
  have frame: "a = actionWith action data \<and> marker a = None \<and>
      map_of (props a) ''__proto__'' = None \<and>
      (\<forall>k. k \<noteq> ''__proto__'' \<longrightarrow>
           map_of (props a) k =
             (case map_of data k of Some v \<Rightarrow> Some v | None \<Rightarrow> map_of (props action) k))"
    if "a = actionWith action data" "distinct (map fst data)" for data
    using that assms(3) by (simp add: actionWith_marker actionWith_props)
  have ok: "\<not> nullish callAPI \<and> accepted env callAPI"
  proof (rule ccontr)
    assume "\<not> (\<not> nullish callAPI \<and> accepted env callAPI)"
    then consider "callAPI = JNull" | "\<not> nullish callAPI" "\<not> accepted env callAPI"
      using assms(2) by (cases callAPI) auto
    then have "filter is_Next (snd (middleware env action)) = []"
    proof cases
      case 1
      then show ?thesis using assms(1) by (simp add: middleware_null)
    next
      case 2
      from middleware_refused [OF assms(1) 2] show ?thesis
        by (auto simp: endpoint_calls_only_calls)
    qed
    moreover have "Next a \<in> set (filter is_Next (snd (middleware env action)))"
      using assms(4) by simp
    ultimately show False by simp
  qed
  then have v: "accepted env callAPI" ..
  have "Next a \<in> set (filter is_Next (snd (middleware env action)))"
    using assms(4) by simp
  then have "a = request_action action callAPI \<or>
             Next a \<in> set (snd (settlement env action callAPI))"
    by (auto simp: middleware_accepted [OF assms(1) v] endpoint_calls_only_calls)
  then show ?thesis
  proof
    assume "a = request_action action callAPI"
    then have "a = actionWith action [(''type'', at ?types 0)]"
      by (simp add: request_action_def)
    from frame [OF this] show ?thesis by auto
  next
    assume t: "Next a \<in> set (snd (settlement env action callAPI))"
    show ?thesis
    proof (cases ?call)
      case (Fulfilled response)
      from callFbog_Fulfilled [OF this] obtain reply normalized
        where r: "fBfetch env (fetched env callAPI) = Fulfilled reply"
          "truthy (prop_of reply ''ok'')"
          "normalize_fn env (camelizeKeys_fn env (prop_of reply ''data''))
             (prop_of callAPI ''schema'') = Inr normalized"
          "response = JObj (object_assign [] normalized)"
        by blast
      from t Fulfilled
      have "a = actionWith action
                  [(''response'', JObj (object_assign [] normalized)), (''type'', at ?types 1)]"
        by (simp add: settlement_def on_settled_cases r(4))
      from frame [OF this] r(1-3) show ?thesis by auto
    next
      case (Rejected error)
      let ?e = "if truthy (prop_of error ''message'') then prop_of error ''message''
                else JStr ''Something bad happened''"
      from t Rejected have n: "\<not> nullish error"
        and "a = actionWith action [(''type'', at ?types 2), (''error'', ?e)]"
        by (simp_all add: settlement_def on_settled_cases split: if_splits)
      from frame [OF this(2)] callFbog_Rejected [OF Rejected] n show ?thesis
        by (intro exI [of _ "[(''type'', at ?types 2), (''error'', ?e)]"]) auto
    qed
  qed
qed

theorem forwarded_action_fields_witness:
  "marker (load_page (page_call (JStr ''/me'') PAGE three_types)) =
     Some (page_call (JStr ''/me'') PAGE three_types) \<and>
   page_call (JStr ''/me'') PAGE three_types \<noteq> JUndefined \<and>
   distinct (map fst (props (load_page (page_call (JStr ''/me'') PAGE three_types)))) \<and>
   Next \<lparr>marker = None,
         props = [(''type'', JStr ''PAGE_FAILURE''), (''page'', JNum 3),
                  (''error'', JStr ''boom'')]\<rparr>
     \<in> set (snd (middleware (the_env (envelope False (JObj [(''message'', JStr ''boom'')])))
                   (load_page (page_call (JStr ''/me'') PAGE three_types)))) \<and>
   (\<exists>data. \<lparr>marker = None,
              props = [(''type'', JStr ''PAGE_FAILURE''), (''page'', JNum 3),
                       (''error'', JStr ''boom'')]\<rparr> =
             actionWith (load_page (page_call (JStr ''/me'') PAGE three_types)) data \<and>
           (\<forall>k. k \<noteq> ''__proto__'' \<longrightarrow>
                map_of [(''type'', JStr ''PAGE_FAILURE''), (''page'', JNum 3),
                        (''error'', JStr ''boom'')] k =
                  (case map_of data k of
                     Some v \<Rightarrow> Some v
                   | None \<Rightarrow> map_of [(''type'', JStr ''LOAD_PAGE''), (''page'', JNum 3)] k)))"
proof -
  let ?env = "the_env (envelope False (JObj [(''message'', JStr ''boom'')]))"
  let ?call = "page_call (JStr ''/me'') PAGE three_types"
  let ?a = "\<lparr>marker = None,
             props = [(''type'', JStr ''PAGE_FAILURE''), (''page'', JNum 3),
                      (''error'', JStr ''boom'' :: nat jsval)]\<rparr>"
  have m: "marker (load_page ?call) = Some ?call"
    by (simp add: load_page_def)
  have u: "?call \<noteq> JUndefined"
    by (simp add: page_call_def)
  have d: "distinct (map fst (props (load_page ?call)))"
    by (simp add: load_page_def)
  have f: "Next ?a \<in> set (snd (middleware ?env (load_page ?call)))"
    by (simp add: example_call_run example_envelope_not_ok example_call_fails)
  from forwarded_action_fields [OF m u d f]
  obtain data where "?a = actionWith (load_page ?call) data"
    and "\<forall>k. k \<noteq> ''__proto__'' \<longrightarrow> map_of (props ?a) k =
           (case map_of data k of Some v \<Rightarrow> Some v | None \<Rightarrow> map_of (props (load_page ?call)) k)"
    by blast
  moreover have "props ?a = [(''type'', JStr ''PAGE_FAILURE''), (''page'', JNum 3),
                     (''error'', JStr ''boom'')]"
    by simp
  moreover have "props (load_page ?call) = [(''type'', JStr ''LOAD_PAGE''), (''page'', JNum 3)]"
    by (simp add: load_page_def)
  ultimately have "\<exists>data. ?a = actionWith (load_page ?call) data \<and>
      (\<forall>k. k \<noteq> ''__proto__'' \<longrightarrow>
           map_of [(''type'', JStr ''PAGE_FAILURE''), (''page'', JNum 3),
                     (''error'', JStr ''boom'')] k =
             (case map_of data k of
                Some v \<Rightarrow> Some v
              | None \<Rightarrow> map_of [(''type'', JStr ''LOAD_PAGE''), (''page'', JNum 3)] k))"
    by metis
  with m u d f show ?thesis
    by blast
qed

section \<open>The two forwarded actions and the returned promise\<close>

lemma forwarded_append: "forwarded (xs @ ys) = forwarded xs @ forwarded ys"
  by (simp add: forwarded_def)

lemma forwarded_endpoint_calls: "forwarded (endpoint_calls env callAPI) = []"
  by (cases "prop_of callAPI ''endpoint''")
     (simp_all add: forwarded_def endpoint_calls_def resolve_endpoint_def)

text \<open>
  What a valid descriptor leads to. The request action is forwarded before the fetch is
  started. When \<^verbatim>\<open>callFbog\<close> resolves, or rejects with a value that is not \<^verbatim>\<open>null\<close> or
  \<^verbatim>\<open>undefined\<close>, one more action is forwarded and the promise is fulfilled with what
  \<^verbatim>\<open>next\<close> returned for it. When \<^verbatim>\<open>callFbog\<close> rejects with \<^verbatim>\<open>null\<close> or \<^verbatim>\<open>undefined\<close>,
  reading \<^verbatim>\<open>error.message\<close> throws in the handler: nothing more is forwarded and the
  promise is rejected.
\<close>

lemma valid_call_outcome:
  assumes "marker action = Some callAPI" and "valid_call env callAPI"
  shows "\<exists>handled.
      snd (middleware env action) =
        endpoint_calls env callAPI @
        [Next (request_action action callAPI), Fetch (fetched env callAPI)] @ handled \<and>
      (case fst (callFbog env (fetched env callAPI) (prop_of callAPI ''schema'')) of
         Fulfilled response \<Rightarrow>
           (\<exists>success. handled = [Next success] \<and>
              map_of (props success) ''type'' = Some (at (prop_of callAPI ''types'') 1) \<and>
              fst (middleware env action) = Promise (Fulfilled (next_fn env success)))
       | Rejected error \<Rightarrow>
           if nullish error then
             handled = [] \<and>
             fst (middleware env action) = Promise (Rejected (TypeError env error ''message''))
           else
             (\<exists>failure. handled = [Next failure] \<and>
                map_of (props failure) ''type'' = Some (at (prop_of callAPI ''types'') 2) \<and>
                map_of (props failure) ''error'' =
                  Some (if truthy (prop_of error ''message'') then prop_of error ''message''
                        else JStr ''Something bad happened'') \<and>
                fst (middleware env action) = Promise (Fulfilled (next_fn env failure))))"
  by (simp add: middleware_valid [OF assms] settlement_def on_settled_cases actionWith_def
        object_assign_def update_conv' split: settled.splits)

text \<open>
  The two examples of the specification that the code meets: the message of the envelope's
  data becomes the error, and data without a message give the placeholder text.
\<close>

lemma failure_message_examples:
  "map (\<lambda>a. (map_of (props a) ''type'', map_of (props a) ''error''))
     (forwarded (snd (middleware (the_env (envelope False (JObj [(''message'', JStr ''boom'')])))
        (load_page (page_call (JStr ''/me'') PAGE three_types))))) =
   [(Some (JStr ''PAGE_REQUEST''), None), (Some (JStr ''PAGE_FAILURE''), Some (JStr ''boom''))]"
  "map (\<lambda>a. (map_of (props a) ''type'', map_of (props a) ''error''))
     (forwarded (snd (middleware (the_env (Rejected (JObj [])))
        (load_page (page_call (JStr ''/me'') PAGE three_types))))) =
   [(Some (JStr ''PAGE_REQUEST''), None),
    (Some (JStr ''PAGE_FAILURE''), Some (JStr ''Something bad happened''))]"
  by (simp_all add: example_call_run example_envelope_not_ok example_fetch_rejected
        example_call_fails forwarded_def)

text \<open>
  C1. The claim fails where \<^verbatim>\<open>callFbog\<close> rejects with \<^verbatim>\<open>undefined\<close>: for a valid descriptor
  and the envelope \<^verbatim>\<open>{ok: false}\<close>, which has no data, the request action is forwarded
  and the fetch started, the failure handler throws on \<^verbatim>\<open>error.message\<close>, and no second
  action is forwarded.
\<close>

theorem request_without_terminal_action:
  "valid_call (the_env (Fulfilled (JObj [(''ok'', JBool False)])))
     (page_call (JStr ''/me'') PAGE three_types) \<and>
   snd (middleware (the_env (Fulfilled (JObj [(''ok'', JBool False)])))
          (load_page (page_call (JStr ''/me'') PAGE three_types))) =
     [Next \<lparr>marker = None, props = [(''type'', JStr ''PAGE_REQUEST''), (''page'', JNum 3)]\<rparr>,
      Fetch ''/me''] \<and>
   length (forwarded (snd (middleware (the_env (Fulfilled (JObj [(''ok'', JBool False)])))
          (load_page (page_call (JStr ''/me'') PAGE three_types))))) = 1"
proof -
  have "fst (callFbog (the_env (Fulfilled (JObj [(''ok'', JBool False)]))) ''/me'' PAGE) =
          Rejected JUndefined"
    by (simp add: callFbog_def on_response_def the_env_def get_prop_def)
  then show ?thesis
    by (simp add: example_call_valid example_call_run on_settled_cases forwarded_def)
qed

theorem request_without_terminal_action_witness:
  "length (forwarded (snd (middleware (the_env (Fulfilled (JObj [(''ok'', JBool False)])))
          (load_page (page_call (JStr ''/me'') PAGE three_types))))) \<noteq> 2"
  using request_without_terminal_action by (simp add: forwarded_def)

text \<open>
  C3. The claim fails for a fetch rejected without a value: with the rejection value
  \<^verbatim>\<open>undefined\<close> the only action forwarded is the request action, which has no
  \<^verbatim>\<open>error\<close> field; no failure action with the placeholder text is forwarded.
\<close>

theorem rejection_without_value_forwards_no_error:
  "map (\<lambda>a. (map_of (props a) ''type'', map_of (props a) ''error''))
     (forwarded (snd (middleware (the_env (Rejected JUndefined))
        (load_page (page_call (JStr ''/me'') PAGE three_types))))) =
   [(Some (JStr ''PAGE_REQUEST''), None)]"
  by (simp add: example_call_run example_fetch_rejected on_settled_cases forwarded_def)

theorem rejection_without_value_forwards_no_error_witness:
  "Some (JStr ''Something bad happened'') \<notin>
     set (map (\<lambda>a. map_of (props a) ''error'')
            (forwarded (snd (middleware (the_env (Rejected JUndefined))
               (load_page (page_call (JStr ''/me'') PAGE three_types))))))"
proof -
  have "map (\<lambda>a. map_of (props a) ''error'')
          (forwarded (snd (middleware (the_env (Rejected JUndefined))
             (load_page (page_call (JStr ''/me'') PAGE three_types))))) =
        map snd (map (\<lambda>a. (map_of (props a) ''type'', map_of (props a) ''error''))
          (forwarded (snd (middleware (the_env (Rejected JUndefined))
             (load_page (page_call (JStr ''/me'') PAGE three_types))))))"
    by (simp add: comp_def)
  then show ?thesis
    unfolding rejection_without_value_forwards_no_error by simp
qed

text \<open>
  C4. The claim fails for the envelope \<^verbatim>\<open>{ok: false, data: null}\<close>: \<^verbatim>\<open>callFbog\<close> rejects
  with \<^verbatim>\<open>null\<close>, the failure handler throws on \<^verbatim>\<open>error.message\<close>, and the promise the
  middleware returned is rejected with the \<^verbatim>\<open>TypeError\<close> of that read.
\<close>

theorem promise_rejected_for_null_data:
  "fst (middleware (the_env (envelope False JNull))
          (load_page (page_call (JStr ''/me'') PAGE three_types))) =
   Promise (Rejected (TypeError (the_env (envelope False JNull)) JNull ''message''))"
  by (simp add: example_call_run example_envelope_not_ok on_settled_cases)

theorem promise_rejected_for_null_data_witness:
  "\<forall>v. fst (middleware (the_env (envelope False JNull))
            (load_page (page_call (JStr ''/me'') PAGE three_types))) \<noteq>
        Promise (Fulfilled v)"
  using promise_rejected_for_null_data by simp


section \<open>Normalized responses\<close>

lemma update_fresh: "k \<notin> fst ` set al \<Longrightarrow> AList.update k v al = al @ [(k, v)]"
  by (induction al) auto

lemma fold_update_distinct:
  "distinct (map fst (acc @ kvs)) \<Longrightarrow> fold (\<lambda>(k, v). AList.update k v) kvs acc = acc @ kvs"
proof (induction kvs arbitrary: acc)
  case Nil
  show ?case by simp
next
  case (Cons kv kvs)
  obtain k v where kv: "kv = (k, v)" by (cases kv)
  from Cons.prems have "k \<notin> fst ` set acc"
    by (auto simp: kv)
  then have "AList.update k v acc = acc @ [(k, v)]"
    by (rule update_fresh)
  moreover from Cons.prems have "distinct (map fst ((acc @ [(k, v)]) @ kvs))"
    by (simp add: kv)
  ultimately show ?case
    using Cons.IH [of "acc @ [(k, v)]"] by (simp add: kv)
qed

lemma assigned_distinct:
  "distinct (map fst kvs) \<Longrightarrow> assigned kvs = kvs"
  using fold_update_distinct [of "[]" kvs] by (simp add: assigned_def)

lemma distinct_fold_update:
  "distinct (map fst acc) \<Longrightarrow> distinct (map fst (fold (\<lambda>(k, v). AList.update k v) kvs acc))"
  by (induction kvs arbitrary: acc) (auto simp: distinct_update)

lemma distinct_assigned: "distinct (map fst (assigned kvs))"
  by (simp add: assigned_def distinct_fold_update)

lemma mergeIntoEntity_distinct:
  "distinct (map fst (entityA @ entityB)) \<Longrightarrow> mergeIntoEntity entityA entityB = entityA @ entityB"
proof (induction entityB arbitrary: entityA)
  case Nil
  show ?case by simp
next
  case (Cons kv entityB)
  obtain k v where kv: "kv = (k, v)" by (cases kv)
  from Cons.prems have fresh: "k \<notin> fst ` set entityA"
    by (auto simp: kv)
  then have "map_of entityA k = None"
    by (simp add: map_of_eq_None_iff)
  moreover from Cons.prems have "distinct (map fst ((entityA @ [(k, v)]) @ entityB))"
    by (simp add: kv)
  ultimately show ?case
    using Cons.IH [of "entityA @ [(k, v)]"] by (simp add: kv update_fresh [OF fresh])
qed

lemma index_from_map:
  "index_from i (map (map_option f) xs) = map (map_prod (\<lambda>key. key) f) (index_from i xs)"
proof (induction xs arbitrary: i)
  case Nil
  show ?case by simp
next
  case (Cons x xs)
  then show ?case by (cases x) simp_all
qed

lemma index_keys_map:
  "index_keys (map (map_option f) xs) = map (map_prod (\<lambda>key. key) f) (index_keys xs)"
  by (simp add: index_keys_def index_from_map)

lemma visit_children:
  "\<exists>items. visit v = visit_node v (map (map_prod (\<lambda>key. key) visit) (own_props v)) items"
  by (cases v) (auto simp: own_props_def index_keys_map)

lemma visit_without_schema: "\<not> isObject schema \<Longrightarrow> visit v schema bag = (v, bag)"
  using visit_children [of v] by (auto simp: visit_node_def)

lemma visitObject_plain:
  "\<forall>k \<in> fst ` set kvs. \<not> isObject (prop_of schema k) \<Longrightarrow>
   visitObject (map (map_prod (\<lambda>key. key) visit) kvs) schema normalized bag =
     (fold (\<lambda>(k, v). AList.update k v) kvs normalized, bag)"
  by (induction kvs arbitrary: normalized) (auto simp: visit_without_schema)

lemma update_last: "k \<notin> fst ` set al \<Longrightarrow> AList.update k v (al @ [(k, w)]) = al @ [(k, v)]"
  by (induction al) auto

lemma map_of_last: "map_of al k = None \<Longrightarrow> map_of (al @ [(k, w)]) k = Some w"
  by (simp add: map_add_def)

lemma ensure_fresh:
  assumes "map_of bag entityKey = None"
  shows "ensure entityKey eid bag = bag @ [(entityKey, JObj [(eid, JObj [])])]"
proof -
  have fresh: "entityKey \<notin> fst ` set bag"
    using assms by (simp add: map_of_eq_None_iff)
  show ?thesis
    by (simp add: ensure_def Let_def assms map_add_def update_fresh [OF fresh]
          update_last [OF fresh])
qed

lemma store_last:
  assumes "map_of bag entityKey = None" and "distinct (map fst normalized)"
  shows "store entityKey eid normalized (bag @ [(entityKey, JObj [(eid, JObj [])])]) =
           bag @ [(entityKey, JObj [(eid, JObj normalized)])]"
proof -
  have fresh: "entityKey \<notin> fst ` set bag"
    using assms(1) by (simp add: map_of_eq_None_iff)
  have "mergeIntoEntity [] normalized = normalized"
    using mergeIntoEntity_distinct [of "[]" normalized] assms(2) by simp
  then show ?thesis
    by (simp add: store_def Let_def map_add_def assms(1) update_last [OF fresh])
qed

lemma visit_flat_entity:
  assumes "isObject v" and "map_of bag entityKey = None"
  shows "visit v (JSchema (EntitySchema entityKey idAttribute [])) bag =
           (prop_of v idAttribute,
            bag @ [(entityKey,
                    JObj [(to_key (prop_of v idAttribute), JObj (assigned (own_props v)))])])"
proof -
  let ?schema = "JSchema (EntitySchema entityKey idAttribute []) :: 'a jsval"
  obtain items
    where c: "visit v = visit_node v (map (map_prod (\<lambda>key. key) visit) (own_props v)) items"
    using visit_children [of v] by blast
  have "visitObject (map (map_prod (\<lambda>key. key) visit) (own_props v)) ?schema [] bag' =
          (assigned (own_props v), bag')" for bag'
    by (subst visitObject_plain) (simp_all add: assigned_def)
  then show ?thesis
    using assms
    by (simp add: c visit_node_def ensure_fresh store_last distinct_assigned Let_def)
qed

lemma visit_primitive: "\<not> isObject v \<Longrightarrow> visit v schema bag = (v, bag)"
  using visit_children [of v] by (auto simp: visit_node_def)

lemma prop_of_PAGE:
  "prop_of PAGE k = (if k = ''events'' then EVENT else JUndefined)"
  by (simp add: PAGE_def pageSchema_def EVENT_def)

lemma visit_EVENT:
  "map_of bag ''events'' = None \<Longrightarrow>
   visit v EVENT bag =
     (if isObject v then prop_of v ''id'' else v, bag @ event_table [(''events'', v)])"
  by (simp add: event_table_def visit_primitive)
     (simp add: EVENT_def eventSchema_def visit_flat_entity)

lemma visitObject_page_rest:
  assumes "''events'' \<notin> fst ` set kvs"
  shows "visitObject (map (map_prod (\<lambda>key. key) visit) kvs) PAGE normalized bag =
           (fold (\<lambda>(k, v). AList.update k v) (page_record kvs) normalized, bag)"
proof -
  have same: "page_record kvs = kvs"
    unfolding page_record_def
  proof (rule map_idI)
    fix kv
    assume "kv \<in> set kvs"
    with assms have "fst kv \<noteq> ''events''"
      by (metis imageI)
    then show "(case kv of (k, v) \<Rightarrow>
                  (k, if k = ''events'' \<and> isObject v then prop_of v ''id'' else v)) = kv"
      by (cases kv) simp
  qed
  have plain: "\<forall>k \<in> fst ` set kvs. \<not> isObject (prop_of PAGE k)"
  proof
    fix k
    assume "k \<in> fst ` set kvs"
    with assms have "k \<noteq> ''events''"
      by blast
    then show "\<not> isObject (prop_of PAGE k)"
      by (simp add: prop_of_PAGE)
  qed
  show ?thesis
    unfolding same by (rule visitObject_plain [OF plain])
qed

lemma visitObject_page:
  "distinct (map fst kvs) \<Longrightarrow> map_of bag ''events'' = None \<Longrightarrow>
   visitObject (map (map_prod (\<lambda>key. key) visit) kvs) PAGE normalized bag =
     (fold (\<lambda>(k, v). AList.update k v) (page_record kvs) normalized, bag @ event_table kvs)"
proof (induction kvs arbitrary: normalized)
  case Nil
  show ?case by (simp add: page_record_def event_table_def)
next
  case (Cons kv kvs)
  obtain k v where kv: "kv = (k, v)" by (cases kv)
  show ?case
  proof (cases "k = ''events''")
    case True
    with Cons.prems have rest: "''events'' \<notin> fst ` set kvs"
      by (simp add: kv)
    have "event_table (kv # kvs) = event_table [(''events'', v)]"
      by (simp add: event_table_def kv True)
    then show ?thesis
      by (simp add: kv True prop_of_PAGE visit_EVENT [OF Cons.prems(2)]
            visitObject_page_rest [OF rest] page_record_def)
  next
    case False
    then have other: "''events'' \<noteq> k"
      by auto
    have "event_table (kv # kvs) = event_table kvs"
      by (simp add: event_table_def kv other)
    moreover have "visitObject (map (map_prod (\<lambda>key. key) visit) kvs) PAGE
                     (AList.update k v normalized) bag =
                   (fold (\<lambda>(k, v). AList.update k v) (page_record kvs)
                      (AList.update k v normalized), bag @ event_table kvs)"
      using Cons.prems by (intro Cons.IH) simp_all
    ultimately show ?thesis
      by (simp add: kv False other prop_of_PAGE visit_without_schema page_record_def)
  qed
qed

lemma visit_node_entity:
  "isObject obj \<Longrightarrow>
   visit_node obj children items (JSchema (EntitySchema entityKey idAttribute nested)) bag =
     (prop_of obj idAttribute,
      store entityKey (to_key (prop_of obj idAttribute))
        (fst (visitObject children (JSchema (EntitySchema entityKey idAttribute nested)) []
                (ensure entityKey (to_key (prop_of obj idAttribute)) bag)))
        (snd (visitObject children (JSchema (EntitySchema entityKey idAttribute nested)) []
                (ensure entityKey (to_key (prop_of obj idAttribute)) bag))))"
  by (simp add: visit_node_def Let_def split: prod.splits)

lemma store_first:
  "distinct (map fst normalized) \<Longrightarrow>
   store entityKey eid normalized ((entityKey, JObj [(eid, JObj [])]) # bag) =
     (entityKey, JObj [(eid, JObj normalized)]) # bag"
  using mergeIntoEntity_distinct [of "[]" normalized] by (simp add: store_def)

lemma fst_page_record: "map fst (page_record kvs) = map fst kvs"
  by (simp add: page_record_def case_prod_unfold comp_def)

text \<open>
  What \<^verbatim>\<open>normalize(data, Schemas.PAGE)\<close> returns for an object: the record of the page
  under the key \<^verbatim>\<open>pages\<close> and the string of its id, the nested event, if it is an
  object, under \<^verbatim>\<open>events\<close>, and the id as result.
\<close>

lemma normalize_page:
  assumes "distinct (map fst kvs)"
  shows "normalize_js (JObj kvs) PAGE =
    Inr [(''entities'',
          JObj ((''pages'', JObj [(to_key (prop_of (JObj kvs) ''id''), JObj (page_record kvs))])
                # event_table kvs)),
         (''result'', prop_of (JObj kvs) ''id'')]"
proof -
  let ?pid = "prop_of (JObj kvs) ''id''"
  have d: "distinct (map fst (page_record kvs))"
    using assms by (simp add: fst_page_record)
  have e: "ensure ''pages'' (to_key ?pid) [] = [(''pages'', JObj [(to_key ?pid, JObj [])])]"
    using ensure_fresh [of "[]" "''pages''"] by simp
  have v: "visitObject (map (map_prod (\<lambda>key. key) visit) kvs) PAGE []
             [(''pages'', JObj [(to_key ?pid, JObj [])])] =
           (page_record kvs, (''pages'', JObj [(to_key ?pid, JObj [])]) # event_table kvs)"
    using fold_update_distinct [of "[]" "page_record kvs"] d
    by (simp add: visitObject_page [OF assms])
  have "visit (JObj kvs) PAGE [] =
      (?pid, store ''pages'' (to_key ?pid) (page_record kvs)
               ((''pages'', JObj [(to_key ?pid, JObj [])]) # event_table kvs))"
    by (simp only: visit.simps PAGE_def pageSchema_def visit_node_entity isObject.simps
          e v [unfolded PAGE_def pageSchema_def] fst_conv snd_conv)
  then have "visit (JObj kvs) PAGE [] =
      (?pid, (''pages'', JObj [(to_key ?pid, JObj (page_record kvs))]) # event_table kvs)"
    by (simp only: store_first [OF d])
  then show ?thesis
    by (simp add: normalize_js_def PAGE_def)
qed

lemma map_of_page_record:
  "map_of (page_record kvs) k =
     map_option (\<lambda>v. if k = ''events'' \<and> isObject v then prop_of v ''id'' else v) (map_of kvs k)"
  by (induction kvs) (auto simp: page_record_def)

lemma callFbog_page:
  assumes "normalize_fn env = normalize_js"
    and "fBfetch env endpoint = Fulfilled reply"
    and "truthy (prop_of reply ''ok'')"
    and "camelizeKeys_fn env (prop_of reply ''data'') = JObj kvs"
    and "distinct (map fst kvs)"
  shows "fst (callFbog env endpoint PAGE) =
    Fulfilled (JObj
      [(''entities'',
        JObj ((''pages'', JObj [(to_key (prop_of (JObj kvs) ''id''), JObj (page_record kvs))])
              # event_table kvs)),
       (''result'', prop_of (JObj kvs) ''id'')])"
proof -
  have "\<not> nullish reply"
    using assms(3) by (cases reply) auto
  then show ?thesis
    by (simp add: callFbog_def on_response_def get_prop_def assms(1-4)
          normalize_page [OF assms(5)] object_assign_def)
qed

lemma forwarded_Next: "forwarded (Next a # trace) = a # forwarded trace"
  "forwarded (Fetch url # trace) = forwarded trace"
  "forwarded (EndpointCall st # trace) = forwarded trace"
  "forwarded [] = []"
  by (simp_all add: forwarded_def)

text \<open>
  C2, amended. For a valid call with the schema \<^verbatim>\<open>Schemas.PAGE\<close>, an envelope whose
  \<^verbatim>\<open>ok\<close> is true and camel-cased data that are an object, the second forwarded action
  is the success action and its \<^verbatim>\<open>response\<close> is the normalized result: \<^verbatim>\<open>result\<close> is
  the id of the object; \<^verbatim>\<open>entities\<close> has no entry \<^verbatim>\<open>page\<close> or \<^verbatim>\<open>event\<close>; its entry
  \<^verbatim>\<open>pages\<close> holds, under the id as a property name, the record of the object, in which
  every field but \<^verbatim>\<open>events\<close> is unchanged; a nested \<^verbatim>\<open>events\<close> object is replaced in
  the record by its id and stored with its fields in the entry \<^verbatim>\<open>events\<close> under that
  id.
\<close>

theorem page_response_entities:
  assumes "marker action = Some callAPI" and "valid_call env callAPI"
    and "prop_of callAPI ''schema'' = PAGE" and "normalize_fn env = normalize_js"
    and "fBfetch env (fetched env callAPI) = Fulfilled reply"
    and "truthy (prop_of reply ''ok'')"
    and "camelizeKeys_fn env (prop_of reply ''data'') = JObj kvs"
    and "distinct (map fst kvs)"
  shows "let pid = prop_of (JObj kvs) ''id'';
             response =
               JObj [(''entities'',
                      JObj ((''pages'', JObj [(to_key pid, JObj (page_record kvs))])
                            # event_table kvs)),
                     (''result'', pid)]
         in forwarded (snd (middleware env action)) =
              [request_action action callAPI,
               actionWith action
                 [(''response'', response), (''type'', at (prop_of callAPI ''types'') 1)]] \<and>
            terminal_response (snd (middleware env action)) = response \<and>
            path response [''result''] = pid \<and>
            path response [''entities'', ''page''] = JUndefined \<and>
            path response [''entities'', ''event''] = JUndefined \<and>
            path response [''entities'', ''pages'', to_key pid] = JObj (page_record kvs) \<and>
            (\<forall>k. k \<noteq> ''events'' \<longrightarrow>
                 prop_of (JObj (page_record kvs)) k = prop_of (JObj kvs) k) \<and>
            (\<forall>ev. map_of kvs ''events'' = Some (JObj ev) \<longrightarrow>
                 prop_of (JObj (page_record kvs)) ''events'' = prop_of (JObj ev) ''id'' \<and>
                 path response [''entities'', ''events'', to_key (prop_of (JObj ev) ''id'')] =
                   JObj (assigned ev))"
proof -
  let ?pid = "prop_of (JObj kvs) ''id''"
  let ?response =
    "JObj [(''entities'',
            JObj ((''pages'', JObj [(to_key ?pid, JObj (page_record kvs))]) # event_table kvs)),
           (''result'', ?pid)]"
  let ?success =
    "actionWith action
       [(''response'', ?response), (''type'', at (prop_of callAPI ''types'') 1)]"
  have call: "fst (callFbog env (fetched env callAPI) (prop_of callAPI ''schema'')) =
                Fulfilled ?response"
    unfolding assms(3) by (rule callFbog_page [OF assms(4-8)])
  have trace: "forwarded (snd (middleware env action)) =
                 [request_action action callAPI, ?success]"
    by (simp add: middleware_valid [OF assms(1,2)] settlement_def call on_settled_cases
          forwarded_append forwarded_endpoint_calls forwarded_Next)
  have "map_of (props ?success) ''response'' = Some ?response"
    by (simp add: actionWith_def object_assign_def update_conv')
  then have terminal: "terminal_response (snd (middleware env action)) = ?response"
    by (simp add: terminal_response_def trace)
  have tables: "map_of (event_table kvs) ''page'' = None"
      "map_of (event_table kvs) ''event'' = None"
      "map_of (event_table kvs) ''pages'' = None"
    by (simp_all add: event_table_def split: option.splits)
  have frame: "prop_of (JObj (page_record kvs)) k = prop_of (JObj kvs) k" if "k \<noteq> ''events''" for k
    using that by (simp add: map_of_page_record split: option.splits)
  have nested: "prop_of (JObj (page_record kvs)) ''events'' = prop_of (JObj ev) ''id'' \<and>
      path ?response [''entities'', ''events'', to_key (prop_of (JObj ev) ''id'')] =
        JObj (assigned ev)"
    if "map_of kvs ''events'' = Some (JObj ev)" for ev
    using that by (simp add: map_of_page_record path_def event_table_def own_props_def)
  show ?thesis
    unfolding Let_def
    using trace terminal frame nested
    by (simp add: path_def tables)
qed

lemma example_page_response:
  assumes "camelizeKeys data = JObj kvs" and "distinct (map fst kvs)"
  shows "terminal_response
           (snd (middleware (the_env (envelope True data))
                   (load_page (page_call (JStr ''/me'') PAGE three_types)))) =
         JObj [(''entities'',
                JObj ((''pages'', JObj [(to_key (prop_of (JObj kvs) ''id''), JObj (page_record kvs))])
                      # event_table kvs)),
               (''result'', prop_of (JObj kvs) ''id'')]"
proof -
  have "fst (callFbog (the_env (envelope True data)) ''/me'' PAGE) =
          Fulfilled (JObj [(''entities'',
                JObj ((''pages'', JObj [(to_key (prop_of (JObj kvs) ''id''), JObj (page_record kvs))])
                      # event_table kvs)),
               (''result'', prop_of (JObj kvs) ''id'')])"
    by (rule callFbog_page [where reply = "JObj [(''ok'', JBool True), (''data'', data)]"])
       (simp_all add: the_env_def envelope_def assms)
  then show ?thesis
    by (simp add: example_call_run on_settled_cases terminal_response_def forwarded_Next
          actionWith_def object_assign_def update_conv')
qed

lemma camelize_examples:
  "camelize ''id'' = ''id''" "camelize ''name'' = ''name''" "camelize ''events'' = ''events''"
  "camelize ''start_time'' = ''startTime''"
  by (simp_all add: camelize_def to_lower_def to_upper_def)

lemma camelizeKeys_examples:
  "camelizeKeys page_with_events = page_with_events"
  "camelizeKeys page_without_id = page_without_id"
  "camelizeKeys page_with_event =
     JObj [(''id'', JNum 12), (''name'', JStr ''Club''),
           (''events'', JObj [(''id'', JNum 34), (''startTime'', JStr ''20:00'')])]"
  by (simp_all add: page_with_events_def page_without_id_def page_with_event_def
        camelize_examples assigned_def array_def)

lemma show_int_examples: "show_int 12 = ''12''" "show_int 34 = ''34''"
  by (simp_all add: show_int_def show_nat.simps)

lemma index_keys_two: "index_keys [Some a, Some b] = [(''0'', a), (''1'', b)]"
  by (simp add: index_keys_def show_nat.simps)

text \<open>
  C2, as stated, fails. The data \<^verbatim>\<open>{id: "p1", name: "Club", events: [{id: "e1"},
  {id: "e2"}]}\<close> have an id, and the response of the success action has no entry
  \<^verbatim>\<open>page\<close> in its entities: the page is filed under \<^verbatim>\<open>pages\<close>. The list of events is
  not flattened: the schema of \<^verbatim>\<open>events\<close> is a single entity, so the list is filed as
  one event without id and the page's \<^verbatim>\<open>events\<close> field becomes \<^verbatim>\<open>undefined\<close>. Data
  without an id, \<^verbatim>\<open>{name: "Club"}\<close>, still give an entry, under the name
  \<^verbatim>\<open>undefined\<close>.
\<close>

theorem page_entry_counterexample:
  "prop_of page_with_events ''id'' = JStr ''p1'' \<and>
   terminal_response
     (snd (middleware (the_env (envelope True page_with_events))
             (load_page (page_call (JStr ''/me'') PAGE three_types)))) =
     JObj [(''entities'',
            JObj [(''pages'',
                   JObj [(''p1'', JObj [(''id'', JStr ''p1''), (''name'', JStr ''Club''),
                                        (''events'', JUndefined)])]),
                  (''events'',
                   JObj [(''undefined'', JObj [(''0'', JObj [(''id'', JStr ''e1'')]),
                                               (''1'', JObj [(''id'', JStr ''e2'')])])])]),
           (''result'', JStr ''p1'')] \<and>
   path (terminal_response
     (snd (middleware (the_env (envelope True page_with_events))
             (load_page (page_call (JStr ''/me'') PAGE three_types)))))
     [''entities'', ''page''] = JUndefined \<and>
   path (terminal_response
     (snd (middleware (the_env (envelope True page_with_events))
             (load_page (page_call (JStr ''/me'') PAGE three_types)))))
     [''entities'', ''pages'', ''p1'', ''events''] \<noteq> array [JStr ''e1'', JStr ''e2''] \<and>
   path (terminal_response
     (snd (middleware (the_env (envelope True page_with_events))
             (load_page (page_call (JStr ''/me'') PAGE three_types)))))
     [''entities'', ''events'', ''e1''] = JUndefined \<and>
   prop_of page_without_id ''id'' = JUndefined \<and>
   terminal_response
     (snd (middleware (the_env (envelope True page_without_id))
             (load_page (page_call (JStr ''/me'') PAGE three_types)))) =
     JObj [(''entities'',
            JObj [(''pages'', JObj [(''undefined'', JObj [(''name'', JStr ''Club'')])])]),
           (''result'', JUndefined)]"
proof -
  have list: "terminal_response
     (snd (middleware (the_env (envelope True page_with_events))
             (load_page (page_call (JStr ''/me'') PAGE three_types)))) =
     JObj [(''entities'',
            JObj [(''pages'',
                   JObj [(''p1'', JObj [(''id'', JStr ''p1''), (''name'', JStr ''Club''),
                                        (''events'', JUndefined)])]),
                  (''events'',
                   JObj [(''undefined'', JObj [(''0'', JObj [(''id'', JStr ''e1'')]),
                                               (''1'', JObj [(''id'', JStr ''e2'')])])])]),
           (''result'', JStr ''p1'')]"
    by (subst example_page_response [OF camelizeKeys_examples(1) [unfolded page_with_events_def]
             , folded page_with_events_def])
       (simp_all add: page_record_def event_table_def own_props_def index_keys_two
          assigned_def page_with_events_def array_def)
  have none: "terminal_response
     (snd (middleware (the_env (envelope True page_without_id))
             (load_page (page_call (JStr ''/me'') PAGE three_types)))) =
     JObj [(''entities'',
            JObj [(''pages'', JObj [(''undefined'', JObj [(''name'', JStr ''Club'')])])]),
           (''result'', JUndefined)]"
    by (subst example_page_response [OF camelizeKeys_examples(2) [unfolded page_without_id_def]
             , folded page_without_id_def])
       (simp_all add: page_record_def event_table_def page_without_id_def)
  show ?thesis
    unfolding list none
    by (simp add: path_def page_with_events_def page_without_id_def array_def)
qed

theorem page_response_entities_witness:
  "marker (load_page (page_call (JStr ''/me'') PAGE three_types)) =
     Some (page_call (JStr ''/me'') PAGE three_types) \<and>
   valid_call (the_env (envelope True page_with_event))
     (page_call (JStr ''/me'') PAGE three_types) \<and>
   prop_of (page_call (JStr ''/me'') PAGE three_types) ''schema'' = PAGE \<and>
   normalize_fn (the_env (envelope True page_with_event)) = normalize_js \<and>
   fBfetch (the_env (envelope True page_with_event))
     (fetched (the_env (envelope True page_with_event))
        (page_call (JStr ''/me'') PAGE three_types)) =
     Fulfilled (JObj [(''ok'', JBool True), (''data'', page_with_event)]) \<and>
   truthy (prop_of (JObj [(''ok'', JBool True), (''data'', page_with_event)]) ''ok'') \<and>
   camelizeKeys_fn (the_env (envelope True page_with_event))
     (prop_of (JObj [(''ok'', JBool True), (''data'', page_with_event)]) ''data'') =
     JObj [(''id'', JNum 12), (''name'', JStr ''Club''),
           (''events'', JObj [(''id'', JNum 34), (''startTime'', JStr ''20:00'')])] \<and>
   distinct (map fst [(''id'', JNum 12 :: nat jsval), (''name'', JStr ''Club''),
           (''events'', JObj [(''id'', JNum 34), (''startTime'', JStr ''20:00'')])]) \<and>
   map_of [(''id'', JNum 12 :: nat jsval), (''name'', JStr ''Club''),
           (''events'', JObj [(''id'', JNum 34), (''startTime'', JStr ''20:00'')])] ''events'' =
     Some (JObj [(''id'', JNum 34), (''startTime'', JStr ''20:00'')]) \<and>
   terminal_response
     (snd (middleware (the_env (envelope True page_with_event))
             (load_page (page_call (JStr ''/me'') PAGE three_types)))) =
     JObj [(''entities'',
            JObj [(''pages'',
                   JObj [(''12'', JObj [(''id'', JNum 12), (''name'', JStr ''Club''),
                                        (''events'', JNum 34)])]),
                  (''events'',
                   JObj [(''34'', JObj [(''id'', JNum 34), (''startTime'', JStr ''20:00'')])])]),
           (''result'', JNum 12)]"
proof -
  let ?env = "the_env (envelope True page_with_event)"
  let ?call = "page_call (JStr ''/me'') PAGE three_types"
  let ?reply = "JObj [(''ok'', JBool True), (''data'', page_with_event)]"
  let ?kvs = "[(''id'', JNum 12 :: nat jsval), (''name'', JStr ''Club''),
               (''events'', JObj [(''id'', JNum 34), (''startTime'', JStr ''20:00'')])]"
  have m: "marker (load_page ?call) = Some ?call"
    by (simp add: load_page_def)
  have v: "valid_call ?env ?call"
    by (rule example_call_valid)
  have s: "prop_of ?call ''schema'' = PAGE"
    by (simp add: page_call_def)
  have n: "normalize_fn ?env = normalize_js"
    by (simp add: the_env_def)
  have f: "fBfetch ?env (fetched ?env ?call) = Fulfilled ?reply"
    by (simp add: the_env_def envelope_def)
  have t: "truthy (prop_of ?reply ''ok'')"
    by simp
  have c: "camelizeKeys_fn ?env (prop_of ?reply ''data'') = JObj ?kvs"
    by (simp add: the_env_def camelizeKeys_examples)
  have d: "distinct (map fst ?kvs)"
    by simp
  have e: "map_of ?kvs ''events'' = Some (JObj [(''id'', JNum 34), (''startTime'', JStr ''20:00'')])"
    by simp
  from page_response_entities [OF m v s n f t c d]
  have "terminal_response (snd (middleware ?env (load_page ?call))) =
     JObj [(''entities'',
            JObj ((''pages'', JObj [(to_key (prop_of (JObj ?kvs) ''id''), JObj (page_record ?kvs))])
                  # event_table ?kvs)),
           (''result'', prop_of (JObj ?kvs) ''id'')]"
    unfolding Let_def by blast
  also have "\<dots> = JObj [(''entities'',
            JObj [(''pages'',
                   JObj [(''12'', JObj [(''id'', JNum 12), (''name'', JStr ''Club''),
                                        (''events'', JNum 34)])]),
                  (''events'',
                   JObj [(''34'', JObj [(''id'', JNum 34), (''startTime'', JStr ''20:00'')])])]),
           (''result'', JNum 12)]"
    by (simp add: page_record_def event_table_def own_props_def assigned_def
          show_int_examples)
  finally show ?thesis
    using m v s n f t c d e by blast
qed

end
